theory Spec2Isabelle
  imports Complex_Main "HOL-Library.Sublist"
begin

section \<open>Python values and strings\<close>

text \<open>
  A Python \<open>str\<close> is modelled by the bytes of its UTF-8 encoding (\<open>string\<close>), which is
  what \<open>urllib.parse.quote\<close> works on; splitting on \<open>/\<close> and substring tests agree on
  both views. A \<open>str\<close> that has no UTF-8 encoding (a lone surrogate) is outside the model.

  \<open>pyval\<close> is the universe of values that \<open>json\<close> decoding produces, which is also what a
  tool call can pass as \<open>params\<close>: \<open>None\<close>, \<open>bool\<close>, \<open>int\<close>, \<open>float\<close> (finite, as a
  rational), \<open>str\<close>, \<open>list\<close> and \<open>dict\<close> with \<open>str\<close> keys. A \<open>PDict\<close> lists the items of
  the dict in insertion order; a dict has each key once.
\<close>

datatype pyval =
    PNone
  | PBool bool
  | PInt int
  | PFloat rat
  | PStr string
  | PList "pyval list"
  | PDict "(string \<times> pyval) list"

datatype py_exn =
    HTTPError nat
  | RequestException
  | AttributeError
  | TypeError
  | ValidationError
  | ValueError string

text \<open>Truth value of an object, as \<open>if x:\<close> and \<open>x and y\<close> test it.\<close>

fun truthy :: "pyval \<Rightarrow> bool" where
  "truthy PNone = False"
| "truthy (PBool b) = b"
| "truthy (PInt i) = (i \<noteq> 0)"
| "truthy (PFloat r) = (r \<noteq> 0)"
| "truthy (PStr s) = (s \<noteq> [])"
| "truthy (PList xs) = (xs \<noteq> [])"
| "truthy (PDict kvs) = (kvs \<noteq> [])"

text \<open>\<open>d[k] = v\<close> on a dict: an existing key keeps its position, a new key goes last.\<close>

fun dict_set :: "'k \<Rightarrow> 'v \<Rightarrow> ('k \<times> 'v) list \<Rightarrow> ('k \<times> 'v) list" where
  "dict_set k v [] = [(k, v)]"
| "dict_set k v ((k', v') # kvs) =
     (if k = k' then (k, v) # kvs else (k', v') # dict_set k v kvs)"

text \<open>\<open>d.get(k, default)\<close> on a dict.\<close>

definition dict_get :: "('k \<times> 'v) list \<Rightarrow> 'k \<Rightarrow> 'v \<Rightarrow> 'v" where
  "dict_get kvs k dflt = (case map_of kvs k of None \<Rightarrow> dflt | Some v \<Rightarrow> v)"

text \<open>
  \<open>x.get(k, default)\<close> on any object: only a dict has the method, every other value of
  the universe raises \<open>AttributeError\<close>.
\<close>

fun py_get :: "pyval \<Rightarrow> string \<Rightarrow> pyval \<Rightarrow> py_exn + pyval" where
  "py_get (PDict kvs) k dflt = Inr (dict_get kvs k dflt)"
| "py_get _ k dflt = Inl AttributeError"

subsection \<open>Library functions\<close>

text \<open>
  Four functions of the libraries are taken as parameters, because their full
  behaviour is a table of the interpreter or a pattern of the library and not code of
  this program:
  \<^item> \<open>unicode_lower\<close>: \<open>str.lower()\<close> on a string with a non-ASCII character;
  \<^item> \<open>fnmatch\<close>: \<open>fnmatch.fnmatch(name, pattern)\<close>;
  \<^item> \<open>str_other\<close>: \<open>str(x)\<close> for a float, a list and a dict (shortest float
    rendering, and \<open>repr\<close> of the elements);
  \<^item> \<open>header_text_ok\<close>: the pattern that \<open>requests\<close> matches the text of a header
    value against before it sends a request (no leading white space, no line break).
  Everything proved below holds for every choice of them.
\<close>

record pylib =
  unicode_lower :: "string \<Rightarrow> string"
  fnmatch :: "string \<Rightarrow> string \<Rightarrow> bool"
  str_other :: "pyval \<Rightarrow> string"
  header_text_ok :: "string \<Rightarrow> bool"

definition ascii_lower :: "char \<Rightarrow> char" where
  "ascii_lower c =
     (case map_of (zip ''ABCDEFGHIJKLMNOPQRSTUVWXYZ'' ''abcdefghijklmnopqrstuvwxyz'') c of
        None \<Rightarrow> c
      | Some l \<Rightarrow> l)"

text \<open>\<open>s.lower()\<close>: on an ASCII string it maps \<open>A\<close>..\<open>Z\<close> to \<open>a\<close>..\<open>z\<close>.\<close>

definition py_lower :: "pylib \<Rightarrow> string \<Rightarrow> string" where
  "py_lower L s =
     (if list_all (\<lambda>c. (of_char c :: nat) < 128) s then map ascii_lower s
      else unicode_lower L s)"

fun str_nat :: "nat \<Rightarrow> string" where
  "str_nat n =
     (if n < 10 then [''0123456789'' ! n]
      else str_nat (n div 10) @ [''0123456789'' ! (n mod 10)])"

declare str_nat.simps [simp del]

definition str_int :: "int \<Rightarrow> string" where
  "str_int i = (if i < 0 then ''-'' @ str_nat (nat (- i)) else str_nat (nat i))"

text \<open>\<open>str(x)\<close>.\<close>

fun py_str :: "pylib \<Rightarrow> pyval \<Rightarrow> string" where
  "py_str L PNone = ''None''"
| "py_str L (PBool b) = (if b then ''True'' else ''False'')"
| "py_str L (PInt i) = str_int i"
| "py_str L (PStr s) = s"
| "py_str L v = str_other L v"

text \<open>\<open>sep.join(xs)\<close>.\<close>

fun py_join :: "string \<Rightarrow> string list \<Rightarrow> string" where
  "py_join sep [] = []"
| "py_join sep [x] = x"
| "py_join sep (x # y # ys) = x @ sep @ py_join sep (y # ys)"

text \<open>\<open>s.split(d)\<close> for a one-character separator: the empty string gives \<open>['']\<close>.\<close>

fun split_on :: "char \<Rightarrow> string \<Rightarrow> string list" where
  "split_on d [] = [[]]"
| "split_on d (c # cs) =
     (if c = d then [] # split_on d cs
      else (case split_on d cs of [] \<Rightarrow> [[c]] | s # ss \<Rightarrow> (c # s) # ss))"

text \<open>
  \<open>s.count(sub)\<close>: the number of non-overlapping occurrences, scanning from the left
  and resuming after each occurrence found.
\<close>

function py_count :: "string \<Rightarrow> string \<Rightarrow> nat" where
  "py_count sub [] = (if sub = [] then 1 else 0)"
| "py_count sub (c # cs) =
     (if sub = [] then Suc (Suc (length cs))
      else if prefix sub (c # cs) then Suc (py_count sub (drop (length sub) (c # cs)))
      else py_count sub cs)"
  by pat_completeness auto
termination
  by (relation "measure (\<lambda>(sub, s). length s)") auto

text \<open>\<open>sub in s\<close> on strings.\<close>

fun py_in :: "string \<Rightarrow> string \<Rightarrow> bool" where
  "py_in sub [] = (sub = [])"
| "py_in sub (c # cs) = (prefix sub (c # cs) \<or> py_in sub cs)"

subsection \<open>Percent-encoding\<close>

text \<open>
  \<open>urllib.parse.quote(part, safe='')\<close>: every byte of the UTF-8 encoding that is not a
  letter, a digit or one of \<open>_.-~\<close> becomes \<open>%XX\<close> with upper-case hexadecimal digits.
\<close>

definition unreserved :: "char \<Rightarrow> bool" where
  "unreserved c =
     (c \<in> set (''ABCDEFGHIJKLMNOPQRSTUVWXYZ'' @ ''abcdefghijklmnopqrstuvwxyz'' @
               ''0123456789'' @ ''_.-~''))"

definition hex_digit :: "nat \<Rightarrow> char" where
  "hex_digit n = ''0123456789ABCDEF'' ! (n mod 16)"

definition quote_byte :: "char \<Rightarrow> string" where
  "quote_byte c =
     (if unreserved c then [c]
      else [CHR ''%'', hex_digit (of_char c div 16), hex_digit (of_char c mod 16)])"

definition quote :: "string \<Rightarrow> string" where
  "quote s = concat (map quote_byte s)"

text \<open>\<open>quote_plus\<close>, which \<open>urlencode\<close> applies to keys and values: a space becomes \<open>+\<close>.\<close>

definition quote_plus :: "string \<Rightarrow> string" where
  "quote_plus s = concat (map (\<lambda>c. if c = CHR '' '' then ''+'' else quote_byte c) s)"

definition urlencode :: "(string \<times> string) list \<Rightarrow> string" where
  "urlencode kvs = py_join ''&'' (map (\<lambda>(k, v). quote_plus k @ ''='' @ quote_plus v) kvs)"

section \<open>Path codec\<close>

text \<open>
  The first three statements of \<open>jenkins_request_nested\<close>:
  \<^verbatim>\<open>
    path_parts = job_path.split('/')
    encoded_parts = [quote(part, safe='') for part in path_parts]
    encoded_path = '/job/'.join(encoded_parts)
  \<close>
\<close>

definition path_parts :: "string \<Rightarrow> string list" where
  "path_parts job_path = split_on CHR ''/'' job_path"

definition encoded_path :: "string \<Rightarrow> string" where
  "encoded_path job_path = py_join ''/job/'' (map quote (path_parts job_path))"

section \<open>Parameter normalisation\<close>

text \<open>
  \<open>process_jenkins_parameters\<close>: the loop over \<open>params.items()\<close> that fills
  \<open>processed_params\<close>. The \<open>isinstance\<close> tests come in the source's order (list, then
  bool, then everything else). The \<open>context\<close> argument only feeds the log lines.
\<close>

fun process_value :: "pylib \<Rightarrow> pyval \<Rightarrow> string" where
  "process_value L (PList vs) = py_join '','' (map (py_str L) vs)"
| "process_value L (PBool b) = py_lower L (py_str L (PBool b))"
| "process_value L v = py_str L v"

fun process_items :: "pylib \<Rightarrow> (string \<times> pyval) list \<Rightarrow> (string \<times> string) list
    \<Rightarrow> (string \<times> string) list" where
  "process_items L [] processed_params = processed_params"
| "process_items L ((key, val) # rest) processed_params =
     process_items L rest (dict_set key (process_value L val) processed_params)"

definition process_jenkins_parameters :: "pylib \<Rightarrow> (string \<times> pyval) list
    \<Rightarrow> (string \<times> string) list" where
  "process_jenkins_parameters L params = process_items L params []"

text \<open>
  The rule as the specification words it: a list becomes the comma-join of its elements'
  string forms, a boolean the lower-case literal, anything else its plain string form.
\<close>

fun normalized :: "pylib \<Rightarrow> pyval \<Rightarrow> string" where
  "normalized L (PList vs) = py_join '','' (map (py_str L) vs)"
| "normalized L (PBool True) = ''true''"
| "normalized L (PBool False) = ''false''"
| "normalized L v = py_str L v"

section \<open>The remote server and the process state\<close>

text \<open>
  Everything outside the process is one deterministic machine: \<open>serve\<close> stands for
  \<open>requests.request\<close> and \<open>requests.get\<close> together with the network and the Jenkins
  server behind them. It takes the machine's state and a request and gives the outcome
  and the next state, so a server may answer the same request differently each time;
  the state type \<open>'s\<close> is arbitrary. \<open>Transport_failure\<close> is any exception that
  \<open>requests\<close> raises itself (connection error, timeout, invalid header), all of class
  \<open>RequestException\<close>.
  A response carries its status, its headers and its body as decoded JSON; \<open>None\<close> is a
  body that is not JSON, on which \<open>response.json()\<close> raises \<open>JSONDecodeError\<close>, a
  \<open>RequestException\<close> in the \<open>requests\<close> releases that go with this code base.
\<close>

datatype http_method = GET | POST | PUT | DELETE

record request =
  req_method :: http_method
  req_url :: string
  req_headers :: "(string \<times> pyval) list"
  req_data :: "string option"

record response =
  status_code :: nat
  headers :: "(string \<times> string) list"
  json_body :: "pyval option"

datatype outcome = Transport_failure | Reply response

text \<open>
  The pydantic models. A field named \<open>x\<close> of model \<open>JobTreeItem\<close> is \<open>ti_x\<close> here, and
  likewise \<open>jp_\<close>, \<open>ji_\<close> and \<open>tr_\<close> for the other models.
\<close>

record JobTreeItem =
  ti_name :: string
  ti_full_name :: string
  ti_type :: string
  ti_url :: "string option"
  ti_description :: "string option"

record JobParameter =
  jp_name :: string
  jp_type :: string
  jp_default_value :: pyval
  jp_description :: "string option"
  jp_choices :: "string list option"

record JobInfo =
  ji_name :: string
  ji_description :: "string option"
  ji_parameters :: "JobParameter list"
  ji_last_build_number :: "int option"
  ji_last_build_status :: "string option"

text \<open>
  The state that the functions read and write: the machine behind \<open>serve\<close>, the list of
  requests sent so far (kept to state what was and was not requested), the module-level
  \<open>_crumb_cache\<close> (\<open>token\<close> and \<open>expires\<close>; the lock is not modelled, the model runs one
  call at a time), and the number of clock readings taken. Time is an integer number of
  microseconds, the resolution of \<open>datetime\<close>.
\<close>

record 's world =
  srv :: 's
  sent :: "request list"
  crumb_token :: pyval
  crumb_expires :: "int option"
  ticks :: nat

text \<open>
  What a run is parameterised by: the library functions, the configured base URL, the
  server machine, the clock (\<open>clock E k\<close> is what the \<open>k\<close>-th call of \<open>datetime.now()\<close>
  returns; it need not be monotonic), and \<open>build_job_info\<close>, the construction of the
  \<open>JobInfo\<close> of a job from the body of a successful direct lookup (lines 393 to 417 of
  the source, whose pydantic coercions no claim depends on).
\<close>

record 's env =
  lib :: pylib
  JENKINS_URL :: string
  serve :: "'s \<Rightarrow> request \<Rightarrow> outcome \<times> 's"
  clock :: "nat \<Rightarrow> int"
  build_job_info :: "string \<Rightarrow> pyval \<Rightarrow> py_exn + JobInfo"

definition datetime_now :: "'s env \<Rightarrow> 's world \<Rightarrow> int \<times> 's world" where
  "datetime_now E w = (clock E (ticks w), w\<lparr>ticks := Suc (ticks w)\<rparr>)"

definition thirty_minutes :: int where
  "thirty_minutes = 30 * 60 * 1000000"

text \<open>
  \<open>requests.request(method, url, ...)\<close> followed by \<open>response.raise_for_status()\<close>, the
  body of the \<open>try\<close> in \<open>jenkins_request\<close>, \<open>jenkins_request_nested\<close> and
  \<open>get_jenkins_crumb\<close>. The handlers of the first two only log and re-raise.
  Before anything is sent, \<open>requests\<close> checks the headers: a value that is not a string
  (a crumb that the server gave as a number, say), or a string that fails its pattern,
  raises \<open>InvalidHeader\<close>, a \<open>RequestException\<close>, and the server is not contacted.
\<close>

definition header_value_ok :: "pylib \<Rightarrow> pyval \<Rightarrow> bool" where
  "header_value_ok L v = (case v of PStr s \<Rightarrow> header_text_ok L s | _ \<Rightarrow> False)"

definition requests_request :: "'s env \<Rightarrow> request \<Rightarrow> 's world \<Rightarrow> outcome \<times> 's world" where
  "requests_request E rq w =
     (if list_all (\<lambda>(name, v). header_value_ok (lib E) v) (req_headers rq) then
        (case serve E (srv w) rq of
           (out, s') \<Rightarrow> (out, w\<lparr>srv := s', sent := sent w @ [rq]\<rparr>))
      else (Transport_failure, w))"

definition raise_for_status :: "response \<Rightarrow> py_exn + response" where
  "raise_for_status resp =
     (if 400 \<le> status_code resp \<and> status_code resp < 600
      then Inl (HTTPError (status_code resp)) else Inr resp)"

definition request_checked :: "'s env \<Rightarrow> request \<Rightarrow> 's world
    \<Rightarrow> (py_exn + response) \<times> 's world" where
  "request_checked E rq w =
     (case requests_request E rq w of
        (Transport_failure, w') \<Rightarrow> (Inl RequestException, w')
      | (Reply resp, w') \<Rightarrow> (raise_for_status resp, w'))"

definition resp_json :: "response \<Rightarrow> py_exn + pyval" where
  "resp_json resp = (case json_body resp of None \<Rightarrow> Inl RequestException | Some v \<Rightarrow> Inr v)"

section \<open>Credential cache\<close>

text \<open>
  \<open>get_jenkins_crumb\<close>. \<open>HTTPError\<close> is a subclass of \<open>RequestException\<close>, which is all
  that the handler catches. The condition
  \<^verbatim>\<open>_crumb_cache["token"] and _crumb_cache["expires"] and datetime.now() < _crumb_cache["expires"]\<close>
  reads the clock only when a token and an expiry are present. \<open>crumb_fetch\<close> is the
  \<open>try\<close> block after it; the clock is read a second time when the token is stored.
\<close>

fun is_RequestException :: "py_exn \<Rightarrow> bool" where
  "is_RequestException (HTTPError st) = True"
| "is_RequestException RequestException = True"
| "is_RequestException _ = False"

definition crumb_fetch :: "'s env \<Rightarrow> 's world \<Rightarrow> (py_exn + pyval) \<times> 's world" where
  "crumb_fetch E w =
     (case request_checked E
              \<lparr>req_method = GET, req_url = JENKINS_URL E @ ''/crumbIssuer/api/json'',
               req_headers = [], req_data = None\<rparr> w of
        (Inl e, w1) \<Rightarrow> if is_RequestException e then (Inr PNone, w1) else (Inl e, w1)
      | (Inr resp, w1) \<Rightarrow>
          (case resp_json resp of
             Inl e \<Rightarrow> if is_RequestException e then (Inr PNone, w1) else (Inl e, w1)
           | Inr crumb_data \<Rightarrow>
               (case py_get crumb_data ''crumb'' PNone of
                  Inl e \<Rightarrow> if is_RequestException e then (Inr PNone, w1) else (Inl e, w1)
                | Inr tok \<Rightarrow>
                    if truthy tok then
                      (case datetime_now E w1 of
                         (now, w2) \<Rightarrow>
                           (Inr tok,
                            w2\<lparr>crumb_token := tok,
                               crumb_expires := Some (now + thirty_minutes)\<rparr>))
                    else (Inr PNone, w1))))"

definition get_jenkins_crumb :: "'s env \<Rightarrow> 's world \<Rightarrow> (py_exn + pyval) \<times> 's world" where
  "get_jenkins_crumb E w =
     (if truthy (crumb_token w) then
        (case crumb_expires w of
           None \<Rightarrow> crumb_fetch E w
         | Some expires \<Rightarrow>
             (case datetime_now E w of
                (now, w0) \<Rightarrow>
                  if now < expires then (Inr (crumb_token w), w0) else crumb_fetch E w0))
      else crumb_fetch E w)"

section \<open>Request executor\<close>

text \<open>
  \<open>jenkins_request_nested\<close> and \<open>jenkins_request\<close>. \<open>add_crumb\<close> is their common
  "Add CSRF crumb for POST operations" block; the keyword arguments \<open>headers\<close> and
  \<open>data\<close> are explicit arguments here.
\<close>

definition add_crumb :: "'s env \<Rightarrow> http_method \<Rightarrow> (string \<times> pyval) list \<Rightarrow> 's world
    \<Rightarrow> (py_exn + (string \<times> pyval) list) \<times> 's world" where
  "add_crumb E method hdrs w =
     (if method \<in> {POST, PUT, DELETE} then
        (case get_jenkins_crumb E w of
           (Inl e, w1) \<Rightarrow> (Inl e, w1)
         | (Inr crumb, w1) \<Rightarrow>
             (Inr (if truthy crumb then dict_set ''Jenkins-Crumb'' crumb hdrs else hdrs), w1))
      else (Inr hdrs, w))"

definition jenkins_request_nested :: "'s env \<Rightarrow> http_method \<Rightarrow> string \<Rightarrow> string
    \<Rightarrow> (string \<times> pyval) list \<Rightarrow> string option \<Rightarrow> 's world
    \<Rightarrow> (py_exn + response) \<times> 's world" where
  "jenkins_request_nested E method job_path endpoint_suffix hdrs data w =
     (let url = JENKINS_URL E @ ''/job/'' @ encoded_path job_path @ ''/'' @ endpoint_suffix in
      case add_crumb E method hdrs w of
        (Inl e, w1) \<Rightarrow> (Inl e, w1)
      | (Inr hdrs', w1) \<Rightarrow>
          request_checked E
            \<lparr>req_method = method, req_url = url, req_headers = hdrs', req_data = data\<rparr> w1)"

definition jenkins_request :: "'s env \<Rightarrow> http_method \<Rightarrow> string \<Rightarrow> bool
    \<Rightarrow> (string \<times> pyval) list \<Rightarrow> string option \<Rightarrow> 's world
    \<Rightarrow> (py_exn + response) \<times> 's world" where
  "jenkins_request E method endpoint is_job_specific hdrs data w =
     (let url = (if is_job_specific then JENKINS_URL E @ ''/job/'' @ endpoint
                 else JENKINS_URL E @ ''/'' @ endpoint) in
      case add_crumb E method hdrs w of
        (Inl e, w1) \<Rightarrow> (Inl e, w1)
      | (Inr hdrs', w1) \<Rightarrow>
          request_checked E
            \<lparr>req_method = method, req_url = url, req_headers = hdrs', req_data = data\<rparr> w1)"

section \<open>Tree walker\<close>

text \<open>
  \<open>_collect_jobs_recursive\<close>. \<open>new_JobTreeItem\<close> is the validation that the pydantic
  constructor does: \<open>name\<close> and \<open>full_name\<close> must be strings, \<open>url\<close> and \<open>description\<close>
  strings or \<open>None\<close>. \<open>py_iter\<close> is what \<open>for item in items\<close> ranges over.
  \<open>listed_items\<close> is \<open>resp.json().get("jobs", [])\<close>, and \<open>tree_item_of\<close> the body of the
  loop up to the construction of the item. \<open>collect_loop\<close> is the \<open>for\<close> loop, with the
  list \<open>jobs\<close> built so far as an argument. Every exception raised inside the \<open>try\<close>
  reaches \<open>except Exception\<close>, which returns the empty list.
\<close>

fun required_str :: "pyval \<Rightarrow> py_exn + string" where
  "required_str (PStr s) = Inr s"
| "required_str _ = Inl ValidationError"

fun optional_str :: "pyval \<Rightarrow> py_exn + string option" where
  "optional_str PNone = Inr None"
| "optional_str (PStr s) = Inr (Some s)"
| "optional_str _ = Inl ValidationError"

definition new_JobTreeItem :: "pyval \<Rightarrow> pyval \<Rightarrow> string \<Rightarrow> pyval \<Rightarrow> pyval
    \<Rightarrow> py_exn + JobTreeItem" where
  "new_JobTreeItem name full_name type url description =
     (case required_str name of Inl e \<Rightarrow> Inl e | Inr n \<Rightarrow>
     (case required_str full_name of Inl e \<Rightarrow> Inl e | Inr f \<Rightarrow>
     (case optional_str url of Inl e \<Rightarrow> Inl e | Inr u \<Rightarrow>
     (case optional_str description of Inl e \<Rightarrow> Inl e | Inr d \<Rightarrow>
        Inr \<lparr>ti_name = n, ti_full_name = f, ti_type = type, ti_url = u,
            ti_description = d\<rparr>))))"

fun py_iter :: "pyval \<Rightarrow> py_exn + pyval list" where
  "py_iter (PList xs) = Inr xs"
| "py_iter (PDict kvs) = Inr (map (\<lambda>(k, v). PStr k) kvs)"
| "py_iter (PStr s) = Inr (map (\<lambda>c. PStr [c]) s)"
| "py_iter _ = Inl TypeError"

definition listed_items :: "response \<Rightarrow> py_exn + pyval list" where
  "listed_items resp =
     (case resp_json resp of Inl e \<Rightarrow> Inl e | Inr data \<Rightarrow>
     (case py_get data ''jobs'' (PList []) of Inl e \<Rightarrow> Inl e | Inr items \<Rightarrow> py_iter items))"

definition tree_item_of :: "pylib \<Rightarrow> string \<Rightarrow> pyval \<Rightarrow> py_exn + JobTreeItem" where
  "tree_item_of L path item =
     (case py_get item ''name'' (PStr '''') of Inl e \<Rightarrow> Inl e | Inr item_name \<Rightarrow>
     (case py_get item ''_class'' (PStr '''') of Inl e \<Rightarrow> Inl e | Inr item_class \<Rightarrow>
     (case py_get item ''url'' (PStr '''') of Inl e \<Rightarrow> Inl e | Inr item_url \<Rightarrow>
     (case py_get item ''description'' (PStr '''') of Inl e \<Rightarrow> Inl e | Inr item_description \<Rightarrow>
        (let full_name = (if path \<noteq> [] then PStr (path @ ''/'' @ py_str L item_name)
                          else item_name)
         in case item_class of
              PStr c \<Rightarrow>
                new_JobTreeItem item_name full_name
                  (if py_in ''folder'' (py_lower L c) then ''folder'' else ''job'')
                  item_url item_description
            | _ \<Rightarrow> Inl AttributeError)))))"

function collect_jobs_recursive :: "'s env \<Rightarrow> string \<Rightarrow> int \<Rightarrow> int \<Rightarrow> 's world
    \<Rightarrow> (py_exn + JobTreeItem list) \<times> 's world"
  and collect_loop :: "'s env \<Rightarrow> string \<Rightarrow> int \<Rightarrow> int \<Rightarrow> pyval list \<Rightarrow> JobTreeItem list
    \<Rightarrow> 's world \<Rightarrow> (py_exn + JobTreeItem list) \<times> 's world"
where
  "collect_jobs_recursive E path max_depth current_depth w =
     (if current_depth \<ge> max_depth then (Inr [], w)
      else
        (case (if path \<noteq> [] then jenkins_request_nested E GET path ''api/json'' [] None w
               else jenkins_request E GET ''api/json'' False [] None w) of
           (Inl e, w1) \<Rightarrow> (Inr [], w1)
         | (Inr resp, w1) \<Rightarrow>
             (case listed_items resp of
                Inl e \<Rightarrow> (Inr [], w1)
              | Inr items \<Rightarrow>
                  (case collect_loop E path max_depth current_depth items [] w1 of
                     (Inl e, w2) \<Rightarrow> (Inr [], w2)
                   | (Inr jobs, w2) \<Rightarrow> (Inr jobs, w2)))))"
| "collect_loop E path max_depth current_depth [] jobs w = (Inr jobs, w)"
| "collect_loop E path max_depth current_depth (item # items) jobs w =
     (case tree_item_of (lib E) path item of
        Inl e \<Rightarrow> (Inl e, w)
      | Inr ti \<Rightarrow>
          if ti_type ti = ''folder'' then
            (case collect_jobs_recursive E (ti_full_name ti) max_depth (current_depth + 1) w of
               (Inl e, w1) \<Rightarrow> (Inl e, w1)
             | (Inr sub_jobs, w1) \<Rightarrow>
                 collect_loop E path max_depth current_depth items (jobs @ [ti] @ sub_jobs) w1)
          else collect_loop E path max_depth current_depth items (jobs @ [ti]) w)"
  by pat_completeness auto
termination
  by (relation "inv_image (less_than <*lex*> less_than)
        (\<lambda>x. case x of
            Inl (E, path, md, cd, w) \<Rightarrow> (if cd < md then 2 * nat (md - cd) + 2 else 0, 0)
          | Inr (E, path, md, cd, items, jobs, w) \<Rightarrow> (2 * nat (md - cd) + 1, length items))")
    auto


declare collect_jobs_recursive.simps [simp del]

section \<open>Search\<close>

text \<open>\<open>search_jobs\<close>; the result keeps the items themselves instead of their dicts.\<close>

definition search_jobs :: "'s env \<Rightarrow> string \<Rightarrow> string \<Rightarrow> int \<Rightarrow> 's world
    \<Rightarrow> (py_exn + JobTreeItem list) \<times> 's world" where
  "search_jobs E pattern job_type max_depth w =
     (case collect_jobs_recursive E [] max_depth 0 w of
        (Inl e, w1) \<Rightarrow> (Inl e, w1)
      | (Inr all_items, w1) \<Rightarrow>
          (let filtered_items =
                 (if job_type = ''job'' then filter (\<lambda>item. ti_type item = ''job'') all_items
                  else if job_type = ''folder''
                    then filter (\<lambda>item. ti_type item = ''folder'') all_items
                  else all_items);
               matching_items =
                 filter (\<lambda>item.
                     fnmatch (lib E) (py_lower (lib E) (ti_name item))
                       (py_lower (lib E) pattern)
                   \<or> fnmatch (lib E) (py_lower (lib E) (ti_full_name item))
                       (py_lower (lib E) pattern))
                   filtered_items
           in (Inr matching_items, w1)))"

section \<open>Triggering a job\<close>

text \<open>
  \<open>trigger_job\<close>. \<open>jenkins_params_of\<close> is line 314,
  \<^verbatim>\<open>jenkins_params = params.get('args', {}).get('params', params) if params else None\<close>,
  and \<open>process_params_of\<close> the call of \<open>process_jenkins_parameters\<close> on whatever object
  that line produced (\<open>.items()\<close> exists on a dict only). \<open>trigger_attempt\<close> is the body
  of the \<open>try\<close>, \<open>triggered\<close> the construction of the response from the reply.
\<close>

record TriggerJobResponse =
  tr_job_name :: string
  tr_status :: string
  tr_queue_url :: "string option"
  tr_processed_params :: "(string \<times> string) list option"

definition py_quoted :: "string \<Rightarrow> string" where
  "py_quoted s = [CHR 0x27] @ s @ [CHR 0x27]"

definition is_space :: "char \<Rightarrow> bool" where
  "is_space c = (c \<in> {CHR 0x09, CHR 0x0A, CHR 0x0B, CHR 0x0C, CHR 0x0D, CHR '' ''})"

definition py_strip :: "string \<Rightarrow> string" where
  "py_strip s = rev (dropWhile is_space (rev (dropWhile is_space s)))"

fun numbered :: "nat \<Rightarrow> string list \<Rightarrow> string" where
  "numbered i [] = []"
| "numbered i (suggestion # rest) =
     ''  '' @ str_nat i @ ''. '' @ suggestion @ [CHR 0x0A] @ numbered (Suc i) rest"

definition create_job_not_found_error :: "string \<Rightarrow> string \<Rightarrow> string" where
  "create_job_not_found_error job_name operation =
     (let suggestions =
            [''search_jobs('' @ py_quoted job_name @ '')'']
            @ (if CHR ''*'' \<notin> set job_name
               then [''search_jobs('' @ py_quoted (''*'' @ job_name @ ''*'') @ '')''] else [])
            @ [''list_jobs(recursive=True)'']
            @ [''get_job_info('' @ py_quoted job_name @ '', auto_search=True)''];
          error_msg = ''Job '' @ py_quoted job_name @ '' not found for '' @ operation
            @ ''. Try these discovery tools:'' @ [CHR 0x0A] @ numbered 1 suggestions
      in py_strip error_msg)"

definition jenkins_params_of :: "pyval \<Rightarrow> py_exn + pyval" where
  "jenkins_params_of params =
     (if truthy params then
        (case py_get params ''args'' (PDict []) of
           Inl e \<Rightarrow> Inl e
         | Inr args \<Rightarrow> py_get args ''params'' params)
      else Inr PNone)"

fun process_params_of :: "pylib \<Rightarrow> pyval \<Rightarrow> py_exn + (string \<times> string) list" where
  "process_params_of L (PDict kvs) = Inr (process_jenkins_parameters L kvs)"
| "process_params_of L _ = Inl AttributeError"

text \<open>
  \<open>resp.headers.get(name)\<close>. The \<open>headers\<close> of a response are the header lines as they
  were received. \<open>requests\<close> keeps them in a dictionary whose keys compare without regard
  to case, and in which the values of a repeated header are joined with a comma and a
  space.
\<close>

definition header_get :: "pylib \<Rightarrow> (string \<times> string) list \<Rightarrow> string \<Rightarrow> string option" where
  "header_get L hdrs name =
     (case filter (\<lambda>(k, v). py_lower L k = py_lower L name) hdrs of
        [] \<Rightarrow> None
      | found \<Rightarrow> Some (py_join '', '' (map snd found)))"

definition triggered :: "pylib \<Rightarrow> string \<Rightarrow> (string \<times> string) list option
    \<Rightarrow> (py_exn + response) \<times> 's world \<Rightarrow> (py_exn + TriggerJobResponse) \<times> 's world" where
  "triggered L job_name processed_params r =
     (case r of
        (Inl e, w1) \<Rightarrow> (Inl e, w1)
      | (Inr resp, w1) \<Rightarrow>
          (Inr \<lparr>tr_job_name = job_name, tr_status = ''Triggered'',
                tr_queue_url = header_get L (headers resp) ''Location'',
                tr_processed_params = processed_params\<rparr>, w1))"

definition form_headers :: "(string \<times> pyval) list" where
  "form_headers = [(''Content-Type'', PStr ''application/x-www-form-urlencoded'')]"

definition trigger_attempt :: "'s env \<Rightarrow> string \<Rightarrow> pyval \<Rightarrow> 's world
    \<Rightarrow> (py_exn + TriggerJobResponse) \<times> 's world" where
  "trigger_attempt E job_name params w =
     (case jenkins_params_of params of
        Inl e \<Rightarrow> (Inl e, w)
      | Inr jenkins_params \<Rightarrow>
          if CHR ''/'' \<in> set job_name then
            (if truthy jenkins_params then
               (case process_params_of (lib E) jenkins_params of
                  Inl e \<Rightarrow> (Inl e, w)
                | Inr processed_params \<Rightarrow>
                    triggered (lib E) job_name (Some processed_params)
                      (jenkins_request_nested E POST job_name ''buildWithParameters''
                         form_headers (Some (urlencode processed_params)) w))
             else
               triggered (lib E) job_name None
                 (jenkins_request_nested E POST job_name ''build'' [] None w))
          else
            (if truthy jenkins_params then
               (case process_params_of (lib E) jenkins_params of
                  Inl e \<Rightarrow> (Inl e, w)
                | Inr processed_params \<Rightarrow>
                    triggered (lib E) job_name (Some processed_params)
                      (jenkins_request E POST (job_name @ ''/buildWithParameters'') True
                         form_headers (Some (urlencode processed_params)) w))
             else
               triggered (lib E) job_name None
                 (jenkins_request E POST (job_name @ ''/build'') True [] None w)))"

definition trigger_job :: "'s env \<Rightarrow> string \<Rightarrow> pyval \<Rightarrow> 's world
    \<Rightarrow> (py_exn + TriggerJobResponse) \<times> 's world" where
  "trigger_job E job_name params w =
     (case trigger_attempt E job_name params w of
        (Inl (HTTPError st), w1) \<Rightarrow>
          if st = 404
          then (Inl (ValueError (create_job_not_found_error job_name ''triggering'')), w1)
          else (Inl (HTTPError st), w1)
      | (Inl e, w1) \<Rightarrow> (Inl e, w1)
      | (Inr result, w1) \<Rightarrow> (Inr result, w1))"

section \<open>Job resolver\<close>

text \<open>
  \<open>get_job_info\<close>. \<open>direct_lookup\<close> is the inner \<open>try\<close>, \<open>search_fallback\<close> the branch
  of its \<open>HTTPError\<close> handler for a 404 with \<open>auto_search\<close>, and \<open>similar\<close> the
  condition of its matching loop. The outer handler logs and re-raises.
\<close>

record JobInfoResponse =
  success :: bool
  job_info :: "JobInfo option"
  search_results :: "JobTreeItem list option"
  message :: string
  suggestions :: "string list option"

definition direct_lookup :: "'s env \<Rightarrow> string \<Rightarrow> 's world
    \<Rightarrow> (py_exn + JobInfoResponse) \<times> 's world" where
  "direct_lookup E job_name w =
     (case (if CHR ''/'' \<in> set job_name
            then jenkins_request_nested E GET job_name ''api/json'' [] None w
            else jenkins_request E GET (job_name @ ''/api/json'') True [] None w) of
        (Inl e, w1) \<Rightarrow> (Inl e, w1)
      | (Inr resp, w1) \<Rightarrow>
          (case resp_json resp of
             Inl e \<Rightarrow> (Inl e, w1)
           | Inr data \<Rightarrow>
               (case build_job_info E job_name data of
                  Inl e \<Rightarrow> (Inl e, w1)
                | Inr info \<Rightarrow>
                    (Inr \<lparr>success = True, job_info = Some info, search_results = None,
                          message = ''Found job '' @ py_quoted job_name @ '' directly'',
                          suggestions = None\<rparr>, w1))))"

definition similar :: "pylib \<Rightarrow> string \<Rightarrow> JobTreeItem \<Rightarrow> bool" where
  "similar L job_name job =
     (fnmatch L (py_lower L (ti_name job)) (py_lower L job_name)
      \<or> fnmatch L (py_lower L (ti_full_name job)) (py_lower L job_name)
      \<or> py_in (py_lower L job_name) (py_lower L (ti_name job))
      \<or> py_in (py_lower L job_name) (py_lower L (ti_full_name job)))"

definition search_fallback :: "'s env \<Rightarrow> string \<Rightarrow> 's world
    \<Rightarrow> (py_exn + JobInfoResponse) \<times> 's world" where
  "search_fallback E job_name w =
     (case collect_jobs_recursive E [] 10 0 w of
        (Inl e, w1) \<Rightarrow> (Inl e, w1)
      | (Inr all_items, w1) \<Rightarrow>
          (let jobs_only = filter (\<lambda>item. ti_type item = ''job'') all_items;
               matching_jobs = filter (similar (lib E) job_name) jobs_only
           in case matching_jobs of
                first # others \<Rightarrow>
                  (Inr \<lparr>success = False, job_info = None,
                        search_results = Some matching_jobs,
                        message = ''Job '' @ py_quoted job_name
                          @ '' not found directly, but found ''
                          @ str_nat (length matching_jobs) @ '' similar jobs'',
                        suggestions = Some
                          [''Use exact path: get_job_info(''
                             @ py_quoted (ti_full_name first) @ '')'',
                           ''Or try search_jobs() for more search options'']\<rparr>, w1)
              | [] \<Rightarrow>
                  (Inr \<lparr>success = False, job_info = None, search_results = None,
                        message = ''Job '' @ py_quoted job_name
                          @ '' not found and no similar jobs found'',
                        suggestions = Some
                          [''Try: search_jobs('' @ py_quoted (''*'' @ job_name @ ''*'') @ '')'',
                           ''Or: list_jobs(recursive=True) to see all available jobs'']\<rparr>,
                   w1)))"

definition get_job_info :: "'s env \<Rightarrow> string \<Rightarrow> bool \<Rightarrow> 's world
    \<Rightarrow> (py_exn + JobInfoResponse) \<times> 's world" where
  "get_job_info E job_name auto_search w =
     (case direct_lookup E job_name w of
        (Inl (HTTPError st), w1) \<Rightarrow>
          if st = 404 \<and> auto_search then search_fallback E job_name w1
          else (Inl (HTTPError st), w1)
      | (Inl e, w1) \<Rightarrow> (Inl e, w1)
      | (Inr result, w1) \<Rightarrow> (Inr result, w1))"

section \<open>Search and trigger\<close>

text \<open>
  \<open>search_and_trigger\<close>. The three dicts it returns are the three constructors:
  \<open>{"error": "No jobs found", "pattern", "suggestion"}\<close>,
  \<open>{"success": True, "matched_job", "trigger_result"}\<close> and
  \<open>{"error": "Multiple jobs match pattern", "pattern", "matches", "suggestion"}\<close>.
  The tests \<open>len(matches) == 0\<close> and \<open>len(matches) == 1\<close> are the patterns \<open>[]\<close> and
  \<open>[match]\<close>.
\<close>

datatype search_and_trigger_result =
    No_jobs_found string string
  | Success JobTreeItem TriggerJobResponse
  | Multiple_jobs_match string "JobTreeItem list" string

definition search_and_trigger :: "'s env \<Rightarrow> string \<Rightarrow> pyval \<Rightarrow> int \<Rightarrow> 's world
    \<Rightarrow> (py_exn + search_and_trigger_result) \<times> 's world" where
  "search_and_trigger E pattern params max_depth w =
     (case search_jobs E pattern ''job'' max_depth w of
        (Inl e, w1) \<Rightarrow> (Inl e, w1)
      | (Inr matches, w1) \<Rightarrow>
          (case matches of
             [] \<Rightarrow>
               (Inr (No_jobs_found pattern
                  (''Try using search_jobs('' @ py_quoted (pattern @ ''*'')
                   @ '') or search_jobs('' @ py_quoted (''*'' @ pattern @ ''*'')
                   @ '') for broader search'')), w1)
           | [match] \<Rightarrow>
               (case trigger_job E (ti_full_name match) params w1 of
                  (Inl e, w2) \<Rightarrow> (Inl e, w2)
                | (Inr trigger_result, w2) \<Rightarrow> (Inr (Success match trigger_result), w2))
           | _ \<Rightarrow>
               (Inr (Multiple_jobs_match pattern matches
                  ''Use a more specific pattern or call trigger_job with the exact path''),
                w1)))"

section \<open>A concrete library for evaluating examples\<close>

text \<open>
  Examples are evaluated with one concrete choice of the library parameters: a matcher
  for patterns made of \<open>*\<close>, \<open>?\<close> and literal characters, ASCII lower-casing, a
  placeholder for the renderings that are not modelled, and the header pattern for
  ASCII white space.
\<close>

fun glob :: "string \<Rightarrow> string \<Rightarrow> bool" where
  "glob [] [] = True"
| "glob (c # cs) [] = False"
| "glob [] (p # ps) = (p = CHR ''*'' \<and> glob [] ps)"
| "glob (c # cs) (p # ps) =
     (if p = CHR ''*'' then glob (c # cs) ps \<or> glob cs (p # ps)
      else (p = CHR ''?'' \<or> p = c) \<and> glob cs ps)"

definition lib0 :: pylib where
  "lib0 =
     \<lparr>unicode_lower = map ascii_lower, fnmatch = glob, str_other = (\<lambda>v. ''<object>''),
      header_text_ok = (\<lambda>s. CHR 0x0A \<notin> set s \<and> CHR 0x0D \<notin> set s
        \<and> (case s of [] \<Rightarrow> True | c # cs \<Rightarrow> \<not> is_space c))\<rparr>"

section \<open>Notions used in the statements\<close>

text \<open>
  The request that \<open>get_jenkins_crumb\<close> sends, and the three situations that the
  specification of the credential cache tells apart: the cache holds a token and the clock
  reads less than its expiry; the reply to the request carries a token (a status that
  \<open>raise_for_status\<close> accepts and a JSON object whose \<open>crumb\<close> is a true value); the fetch
  fails (no reply, an error status, a body that is not JSON, or an object without a true
  \<open>crumb\<close>). \<open>at_fetch\<close> is the state in which the fetch starts: the clock has been read
  once if the cache held a token and an expiry.
\<close>

definition crumb_request :: "'s env \<Rightarrow> request" where
  "crumb_request E =
     \<lparr>req_method = GET, req_url = JENKINS_URL E @ ''/crumbIssuer/api/json'',
      req_headers = [], req_data = None\<rparr>"

definition cache_valid :: "'s env \<Rightarrow> 's world \<Rightarrow> bool" where
  "cache_valid E w =
     (case crumb_expires w of
        None \<Rightarrow> False
      | Some expires_at \<Rightarrow> truthy (crumb_token w) \<and> clock E (ticks w) < expires_at)"

definition fresh_token :: "outcome \<Rightarrow> pyval \<Rightarrow> bool" where
  "fresh_token out tok =
     (case out of
        Transport_failure \<Rightarrow> False
      | Reply resp \<Rightarrow>
          \<not> (400 \<le> status_code resp \<and> status_code resp < 600) \<and>
          (case json_body resp of
             Some (PDict kvs) \<Rightarrow> dict_get kvs ''crumb'' PNone = tok \<and> truthy tok
           | _ \<Rightarrow> False))"

definition crumb_unavailable :: "outcome \<Rightarrow> bool" where
  "crumb_unavailable out =
     (case out of
        Transport_failure \<Rightarrow> True
      | Reply resp \<Rightarrow>
          (400 \<le> status_code resp \<and> status_code resp < 600) \<or>
          (case json_body resp of
             None \<Rightarrow> True
           | Some (PDict kvs) \<Rightarrow> \<not> truthy (dict_get kvs ''crumb'' PNone)
           | Some _ \<Rightarrow> False))"

definition at_fetch :: "'s world \<Rightarrow> 's world" where
  "at_fetch w =
     (if truthy (crumb_token w) \<and> crumb_expires w \<noteq> None then w\<lparr>ticks := Suc (ticks w)\<rparr>
      else w)"

text \<open>
  For the tree walker: \<open>child_path\<close> is the source's
  \<^verbatim>\<open>full_name = f"{path}/{item_name}" if path else item_name\<close>,
  and \<open>listing_request E path\<close> the request that the walker sends for \<open>path\<close>.
  \<open>fetched E base lo hi w w'\<close> says that between the states \<open>w\<close> and \<open>w'\<close> only listings
  were requested, each for a path that lies \<open>k\<close> levels below \<open>base\<close> with
  \<open>lo \<le> k < hi\<close>. \<open>fetch_fails\<close> is a network or HTTP error. An element of a listing is
  \<open>well_formed\<close> when the body of the loop builds an item from it, and \<open>listed\<close> are the
  items of the children that a listing names.
\<close>

definition child_path :: "string \<Rightarrow> string \<Rightarrow> string" where
  "child_path path item_name = (if path \<noteq> [] then path @ ''/'' @ item_name else item_name)"

definition listing_request :: "'s env \<Rightarrow> string \<Rightarrow> request" where
  "listing_request E path =
     \<lparr>req_method = GET,
      req_url = (if path \<noteq> [] then JENKINS_URL E @ ''/job/'' @ encoded_path path @ ''/api/json''
                 else JENKINS_URL E @ ''/api/json''),
      req_headers = [], req_data = None\<rparr>"

definition fetched :: "'s env \<Rightarrow> string \<Rightarrow> nat \<Rightarrow> int \<Rightarrow> 's world \<Rightarrow> 's world \<Rightarrow> bool" where
  "fetched E base lo hi w w' =
     (\<exists>paths. sent w' = sent w @ map (listing_request E) paths \<and>
        (\<forall>p \<in> set paths. \<exists>names. p = foldl child_path base names
            \<and> lo \<le> length names \<and> int (length names) < hi))"

definition well_formed :: "pylib \<Rightarrow> string \<Rightarrow> pyval \<Rightarrow> bool" where
  "well_formed L path item = (case tree_item_of L path item of Inl e \<Rightarrow> False | Inr ti \<Rightarrow> True)"

definition listed :: "pylib \<Rightarrow> string \<Rightarrow> pyval list \<Rightarrow> JobTreeItem list" where
  "listed L path items =
     concat (map (\<lambda>item. case tree_item_of L path item of Inl e \<Rightarrow> [] | Inr ti \<Rightarrow> [ti]) items)"

definition fetch_fails :: "outcome \<Rightarrow> bool" where
  "fetch_fails out =
     (case out of
        Transport_failure \<Rightarrow> True
      | Reply resp \<Rightarrow> 400 \<le> status_code resp \<and> status_code resp < 600)"

text \<open>
  For the job resolver: the request of the direct lookup, and the fallback's filter as
  the specification words it: an item matches when its name or its full path matches
  the query as a case-insensitive wildcard pattern or contains it as a case-insensitive
  substring; the fallback keeps the job-kind items that match.
\<close>

definition lookup_request :: "'s env \<Rightarrow> string \<Rightarrow> request" where
  "lookup_request E job_name =
     \<lparr>req_method = GET,
      req_url = (if CHR ''/'' \<in> set job_name
                 then JENKINS_URL E @ ''/job/'' @ encoded_path job_name @ ''/api/json''
                 else JENKINS_URL E @ ''/job/'' @ job_name @ ''/api/json''),
      req_headers = [], req_data = None\<rparr>"

definition wildcard_ci :: "pylib \<Rightarrow> string \<Rightarrow> string \<Rightarrow> bool" where
  "wildcard_ci L pattern s = fnmatch L (py_lower L s) (py_lower L pattern)"

definition contains_ci :: "pylib \<Rightarrow> string \<Rightarrow> string \<Rightarrow> bool" where
  "contains_ci L query s = py_in (py_lower L query) (py_lower L s)"

definition name_or_path_matches :: "pylib \<Rightarrow> string \<Rightarrow> JobTreeItem \<Rightarrow> bool" where
  "name_or_path_matches L query item =
     list_ex (\<lambda>s. wildcard_ci L query s \<or> contains_ci L query s)
       [ti_name item, ti_full_name item]"

definition fallback_matches :: "pylib \<Rightarrow> string \<Rightarrow> JobTreeItem list \<Rightarrow> JobTreeItem list" where
  "fallback_matches L query all_items =
     filter (\<lambda>item. ti_type item = ''job'' \<and> name_or_path_matches L query item) all_items"

text \<open>
  For search and trigger: the result of the job-kind search over the items of a walk
  (name or full path matches the pattern as a case-insensitive wildcard pattern), and
  the suggestion that the "no match" result carries.
\<close>

definition job_matches :: "pylib \<Rightarrow> string \<Rightarrow> JobTreeItem list \<Rightarrow> JobTreeItem list" where
  "job_matches L pattern all_items =
     filter (\<lambda>item. ti_type item = ''job''
        \<and> (wildcard_ci L pattern (ti_name item) \<or> wildcard_ci L pattern (ti_full_name item)))
       all_items"

definition broaden :: "string \<Rightarrow> string" where
  "broaden pattern =
     ''Try using search_jobs('' @ py_quoted (pattern @ ''*'') @ '') or search_jobs(''
     @ py_quoted (''*'' @ pattern @ ''*'') @ '') for broader search''"

subsection \<open>A walker by levels\<close>

text \<open>
  The walk, written a second time by recursion on the number of levels that it may
  descend, for comparison with \<open>collect_jobs_recursive\<close>. \<open>explore k lvl E path\<close> has \<open>k\<close>
  levels left: with none it requests nothing and finds nothing; otherwise it requests
  the listing of \<open>path\<close> and passes over the listed children in order, taking each child
  and, for a folder, what \<open>explore\<close> finds in it with one level less. Besides the items it
  returns the paths whose listing it requested, in order, each with its level: \<open>lvl\<close> for
  \<open>path\<close> itself, one more for every folder listed there. A fetch that fails gives no
  items. A listing with an element from which the body of the loop builds no item gives
  no items either, after the children before that element have been visited.
  \<open>walk_children sub\<close> is the pass over the children of one listing, where \<open>sub\<close> walks a
  folder.
\<close>

type_synonym 's walked = "(JobTreeItem list \<times> (nat \<times> string) list) \<times> 's world"

fun walk_children :: "(string \<Rightarrow> 's world \<Rightarrow> 's walked) \<Rightarrow> JobTreeItem list \<Rightarrow> 's world
    \<Rightarrow> 's walked" where
  "walk_children sub [] w = (([], []), w)"
| "walk_children sub (ti # tis) w =
     (if ti_type ti = ''folder'' then
        (case sub (ti_full_name ti) w of
           ((below, visits1), w1) \<Rightarrow>
             (case walk_children sub tis w1 of
                ((rest, visits2), w2) \<Rightarrow> ((ti # below @ rest, visits1 @ visits2), w2)))
      else
        (case walk_children sub tis w of
           ((rest, visits2), w2) \<Rightarrow> ((ti # rest, visits2), w2)))"

primrec explore :: "nat \<Rightarrow> nat \<Rightarrow> 's env \<Rightarrow> string \<Rightarrow> 's world \<Rightarrow> 's walked" where
  "explore 0 lvl E path w = (([], []), w)"
| "explore (Suc k) lvl E path w =
     (case request_checked E (listing_request E path) w of
        (Inl e, w1) \<Rightarrow> (([], [(lvl, path)]), w1)
      | (Inr resp, w1) \<Rightarrow>
          (case listed_items resp of
             Inl e \<Rightarrow> (([], [(lvl, path)]), w1)
           | Inr items \<Rightarrow>
               (case walk_children (explore k (Suc lvl) E)
                       (listed (lib E) path (takeWhile (well_formed (lib E) path) items)) w1 of
                  ((found, visits), w2) \<Rightarrow>
                    ((if list_all (well_formed (lib E) path) items then found else [],
                      (lvl, path) # visits), w2))))"

section \<open>A fixture for evaluating examples\<close>

text \<open>
  A server given by a table from method and URL to outcome, which answers 404 to
  everything else and counts the requests it has served; an environment around it; the
  initial state of the process; and a small tree: at the top level the job \<open>build-a\<close> and
  the folder \<open>team\<close>, in \<open>team\<close> the job \<open>deploy\<close> and the folder \<open>sub\<close>, in \<open>team/sub\<close> the
  job \<open>build-b\<close>. In \<open>ci_partial\<close> the listing of \<open>team\<close> is missing.
\<close>

definition table_serve :: "((http_method \<times> string) \<times> outcome) list \<Rightarrow> nat \<Rightarrow> request
    \<Rightarrow> outcome \<times> nat" where
  "table_serve tbl s rq =
     (case map_of tbl (req_method rq, req_url rq) of
        None \<Rightarrow> (Reply \<lparr>status_code = 404, headers = [], json_body = None\<rparr>, Suc s)
      | Some out \<Rightarrow> (out, Suc s))"

definition env0 :: "((http_method \<times> string) \<times> outcome) list \<Rightarrow> nat env" where
  "env0 tbl =
     \<lparr>lib = lib0, JENKINS_URL = ''http://ci'', serve = table_serve tbl,
      clock = (\<lambda>k. 1000 * int k),
      build_job_info = (\<lambda>name data.
        Inr \<lparr>ji_name = name, ji_description = None, ji_parameters = [],
             ji_last_build_number = None, ji_last_build_status = None\<rparr>)\<rparr>"

definition world0 :: "nat world" where
  "world0 = \<lparr>srv = 0, sent = [], crumb_token = PNone, crumb_expires = None, ticks = 0\<rparr>"

definition ok_json :: "pyval \<Rightarrow> outcome" where
  "ok_json v = Reply \<lparr>status_code = 200, headers = [], json_body = Some v\<rparr>"


definition job_json :: "string \<Rightarrow> pyval" where
  "job_json n = PDict [(''name'', PStr n), (''_class'', PStr ''hudson.model.FreeStyleProject'')]"

definition folder_json :: "string \<Rightarrow> pyval" where
  "folder_json n =
     PDict [(''name'', PStr n), (''_class'', PStr ''com.cloudbees.hudson.plugins.folder.Folder'')]"

definition listing :: "pyval list \<Rightarrow> outcome" where
  "listing items = ok_json (PDict [(''jobs'', PList items)])"

definition item0 :: "string \<Rightarrow> string \<Rightarrow> string \<Rightarrow> JobTreeItem" where
  "item0 n f t =
     \<lparr>ti_name = n, ti_full_name = f, ti_type = t, ti_url = Some [], ti_description = Some []\<rparr>"

definition ci_tree :: "((http_method \<times> string) \<times> outcome) list" where
  "ci_tree =
     [((GET, ''http://ci/api/json''), listing [job_json ''build-a'', folder_json ''team'']),
      ((GET, ''http://ci/job/team/api/json''), listing [job_json ''deploy'', folder_json ''sub'']),
      ((GET, ''http://ci/job/team/job/sub/api/json''), listing [job_json ''build-b''])]"

definition ci_partial :: "((http_method \<times> string) \<times> outcome) list" where
  "ci_partial =
     [((GET, ''http://ci/api/json''),
       listing [job_json ''build-a'', folder_json ''team'', job_json ''build-z''])]"

definition not_found :: outcome where
  "not_found = Reply \<lparr>status_code = 404, headers = [], json_body = None\<rparr>"

definition server_error :: outcome where
  "server_error = Reply \<lparr>status_code = 500, headers = [], json_body = None\<rparr>"

text \<open>
  A server on which the job \<open>team/deploy\<close> can be triggered: it issues a crumb and
  answers the two build requests with 201 and the URL of the queue item.
\<close>

definition queued :: outcome where
  "queued = Reply \<lparr>status_code = 201, headers = [(''Location'', ''http://ci/queue/item/7/'')],
     json_body = None\<rparr>"

definition ci_trigger :: "((http_method \<times> string) \<times> outcome) list" where
  "ci_trigger =
     [((GET, ''http://ci/api/json''), listing [job_json ''build-a'', folder_json ''team'']),
      ((GET, ''http://ci/job/team/api/json''), listing [job_json ''deploy'']),
      ((GET, ''http://ci/crumbIssuer/api/json''), ok_json (PDict [(''crumb'', PStr ''xyz'')])),
      ((POST, ''http://ci/job/team/job/deploy/build''), queued),
      ((POST, ''http://ci/job/team/job/deploy/buildWithParameters''), queued)]"

text \<open>
  A server whose top-level listing names the folder \<open>team\<close>, the job \<open>build-z\<close> and an
  element that is not an object; it has no listing for \<open>team\<close>. And a server with ten
  nested folders \<open>f\<close>, where the tenth holds the job \<open>target\<close>.
\<close>

definition ci_malformed :: "((http_method \<times> string) \<times> outcome) list" where
  "ci_malformed =
     [((GET, ''http://ci/api/json''),
       listing [folder_json ''team'', job_json ''build-z'', PNone])]"

fun deep_table :: "nat \<Rightarrow> string \<Rightarrow> ((http_method \<times> string) \<times> outcome) list" where
  "deep_table 0 url = [((GET, url @ ''/api/json''), listing [job_json ''target''])]"
| "deep_table (Suc n) url =
     ((GET, url @ ''/api/json''), listing [folder_json ''f'']) # deep_table n (url @ ''/job/f'')"

definition ci_deep :: "((http_method \<times> string) \<times> outcome) list" where
  "ci_deep = deep_table 10 ''http://ci''"

section \<open>Properties of the path codec\<close>

lemma unreserved_not_slash: "unreserved c \<Longrightarrow> c \<noteq> CHR ''/''"
  by (auto simp: unreserved_def)

lemma hex_digit_not_slash: "hex_digit n \<noteq> CHR ''/''"
proof -
  have "hex_digit n \<in> set ''0123456789ABCDEF''"
    unfolding hex_digit_def by (rule nth_mem) simp
  then show ?thesis by auto
qed

lemma quote_byte_no_slash: "CHR ''/'' \<notin> set (quote_byte c)"
  using unreserved_not_slash [of c]
    hex_digit_not_slash [of "of_char c div 16"] hex_digit_not_slash [of "of_char c mod 16"]
  by (auto simp: quote_byte_def)

lemma quote_no_slash: "CHR ''/'' \<notin> set (quote s)"
  by (simp add: quote_def quote_byte_no_slash)

lemma py_count_skip:
  "CHR ''/'' \<notin> set q \<Longrightarrow> py_count ''/job/'' (q @ r) = py_count ''/job/'' r"
proof (induction q)
  case Nil
  then show ?case by simp
next
  case (Cons c q)
  then have "c \<noteq> CHR ''/''" by auto
  then have "py_count ''/job/'' ((c # q) @ r) = py_count ''/job/'' (q @ r)"
    by simp
  with Cons show ?case by simp
qed

lemma py_count_sep: "py_count ''/job/'' (''/job/'' @ r) = Suc (py_count ''/job/'' r)"
  by simp

lemma py_count_join:
  "\<forall>q \<in> set qs. CHR ''/'' \<notin> set q \<Longrightarrow>
   py_count ''/job/'' (py_join ''/job/'' qs) = length qs - 1"
proof (induction qs rule: induct_list012)
  case 1
  show ?case by simp
next
  case (2 x)
  then have "py_count ''/job/'' (x @ []) = py_count ''/job/'' []"
    by (intro py_count_skip) simp
  then show ?case by simp
next
  case (3 x y ys)
  have "py_count ''/job/'' (x @ ''/job/'' @ py_join ''/job/'' (y # ys))
        = py_count ''/job/'' (''/job/'' @ py_join ''/job/'' (y # ys))"
    using 3 by (intro py_count_skip) simp
  also have "\<dots> = Suc (py_count ''/job/'' (py_join ''/job/'' (y # ys)))"
    by (rule py_count_sep)
  finally show ?case using 3 by simp
qed

lemma split_on_nonempty: "split_on d s \<noteq> []"
  by (induction s) (auto split: list.splits)

lemma length_split_on: "length (split_on d s) = Suc (length (filter (\<lambda>c. c = d) s))"
  by (induction s) (auto split: list.splits simp: split_on_nonempty)

lemma split_on_no_delim: "x \<in> set (split_on d s) \<Longrightarrow> d \<notin> set x"
  by (induction s arbitrary: x) (auto split: list.splits if_splits)

text \<open>
  Claim C3. For a job path with \<open>n\<close> segments (\<open>n\<close> is one more than the number of
  slashes in the path), the encoded path is the \<open>/job/\<close>-join of the segments, each
  percent-encoded on its own; no encoded segment contains a slash, and the encoded string
  has exactly \<open>n - 1\<close> occurrences of \<open>/job/\<close> as \<open>str.count\<close> counts them (from the
  left, without overlap: after a segment named \<open>job\<close> the text \<open>/job/job/job/\<close> counts
  as the two separators around it). The claim's paths with two or more segments are the
  case \<open>2 \<le> n\<close>.
\<close>

theorem encoded_path_separators:
  assumes "n = length (path_parts job_path)" and "2 \<le> n"
  shows "encoded_path job_path = py_join ''/job/'' (map quote (split_on CHR ''/'' job_path))
    \<and> n = Suc (length (filter (\<lambda>c. c = CHR ''/'') job_path))
    \<and> list_all (\<lambda>part. CHR ''/'' \<notin> set part) (path_parts job_path)
    \<and> list_all (\<lambda>enc. CHR ''/'' \<notin> set enc) (map quote (path_parts job_path))
    \<and> py_count ''/job/'' (encoded_path job_path) = n - 1"
proof -
  have a: "encoded_path job_path = py_join ''/job/'' (map quote (split_on CHR ''/'' job_path))"
    by (simp add: encoded_path_def path_parts_def)
  have b: "n = Suc (length (filter (\<lambda>c. c = CHR ''/'') job_path))"
    using assms(1) by (simp add: path_parts_def length_split_on)
  have c: "list_all (\<lambda>part. CHR ''/'' \<notin> set part) (path_parts job_path)"
    unfolding list_all_iff path_parts_def using split_on_no_delim by fast
  have d: "list_all (\<lambda>enc. CHR ''/'' \<notin> set enc) (map quote (path_parts job_path))"
    by (simp add: list_all_iff quote_no_slash)
  have "py_count ''/job/'' (py_join ''/job/'' (map quote (path_parts job_path)))
        = length (map quote (path_parts job_path)) - 1"
    by (rule py_count_join) (simp add: quote_no_slash)
  then have e: "py_count ''/job/'' (encoded_path job_path) = n - 1"
    using assms(1) by (simp add: encoded_path_def)
  from a b c d e show ?thesis by blast
qed

theorem encoded_path_separators_witness:
  "3 = length (path_parts ''team a/job/deploy'') \<and> (2::nat) \<le> 3
   \<and> encoded_path ''team a/job/deploy'' = ''team%20a/job/job/job/deploy''
   \<and> py_count ''/job/'' (encoded_path ''team a/job/deploy'') = 2"
proof -
  have n: "3 = length (path_parts ''team a/job/deploy'')"
    by (simp add: path_parts_def)
  have m: "(2::nat) \<le> 3"
    by simp
  have e: "encoded_path ''team a/job/deploy'' = ''team%20a/job/job/job/deploy''"
    by (simp add: encoded_path_def path_parts_def quote_def quote_byte_def unreserved_def
        hex_digit_def)
  from encoded_path_separators [OF n m]
  have "py_count ''/job/'' (encoded_path ''team a/job/deploy'') = 3 - 1"
    by blast
  with n e show ?thesis by simp
qed

section \<open>Properties of parameter normalisation\<close>

lemma dict_set_fresh: "k \<notin> fst ` set kvs \<Longrightarrow> dict_set k v kvs = kvs @ [(k, v)]"
  by (induction kvs) auto

lemma process_items_distinct:
  "distinct (map fst acc @ map fst params) \<Longrightarrow>
   process_items L params acc = acc @ map (\<lambda>(k, v). (k, process_value L v)) params"
proof (induction params arbitrary: acc)
  case Nil
  then show ?case by simp
next
  case (Cons kv params)
  obtain k v where kv: "kv = (k, v)" by (cases kv)
  from Cons.prems kv have fresh: "k \<notin> fst ` set acc" by auto
  from Cons.prems kv have "distinct (map fst (acc @ [(k, process_value L v)]) @ map fst params)"
    by auto
  then have "process_items L params (acc @ [(k, process_value L v)])
      = (acc @ [(k, process_value L v)]) @ map (\<lambda>(k, v). (k, process_value L v)) params"
    by (rule Cons.IH)
  with fresh kv show ?case by (simp add: dict_set_fresh)
qed

lemma py_lower_True: "py_lower L ''True'' = ''true''"
  by (simp add: py_lower_def ascii_lower_def)

lemma py_lower_False: "py_lower L ''False'' = ''false''"
  by (simp add: py_lower_def ascii_lower_def)

lemma process_value_normalized: "process_value L v = normalized L v"
  by (induction L v rule: normalized.induct) (simp_all add: py_lower_True py_lower_False)

text \<open>
  Claim C8. For every parameter dict, \<open>process_jenkins_parameters\<close> returns a dict with
  the same keys in the same order, where a list value has become the comma-join of its
  elements' string forms, a boolean the literal \<open>true\<close> or \<open>false\<close>, and any other value
  its plain string form.
\<close>

theorem process_jenkins_parameters_normalizes:
  assumes "distinct (map fst params)"
  shows "process_jenkins_parameters L params = map (\<lambda>(k, v). (k, normalized L v)) params"
  using process_items_distinct [of "[]" params L] assms
  by (simp add: process_jenkins_parameters_def process_value_normalized)

theorem process_jenkins_parameters_normalizes_witness:
  "distinct (map fst [(''flag'', PBool True), (''tags'', PList [PStr ''a'', PStr ''b'']),
      (''n'', PInt 5)])
   \<and> process_jenkins_parameters lib0
       [(''flag'', PBool True), (''tags'', PList [PStr ''a'', PStr ''b'']), (''n'', PInt 5)]
     = [(''flag'', ''true''), (''tags'', ''a,b''), (''n'', ''5'')]"
proof -
  have d: "distinct (map fst [(''flag'', PBool True),
      (''tags'', PList [PStr ''a'', PStr ''b'']), (''n'', PInt 5)])"
    by simp
  show ?thesis
    using d process_jenkins_parameters_normalizes [OF d, of lib0]
    by (simp add: str_int_def str_nat.simps)
qed


section \<open>Evaluation of the examples\<close>

lemma env0_simps:
  "lib (env0 tbl) = lib0"
  "JENKINS_URL (env0 tbl) = ''http://ci''"
  "serve (env0 tbl) = table_serve tbl"
  "clock (env0 tbl) k = 1000 * int k"
  by (simp_all add: env0_def)

lemma tree_item_job:
  "tree_item_of lib0 path (job_json n) = Inr (item0 n (child_path path n) ''job'')"
  by (simp add: tree_item_of_def new_JobTreeItem_def py_lower_def ascii_lower_def
      job_json_def item0_def child_path_def dict_get_def)

lemma tree_item_folder:
  "tree_item_of lib0 path (folder_json n) = Inr (item0 n (child_path path n) ''folder'')"
  by (simp add: tree_item_of_def new_JobTreeItem_def py_lower_def ascii_lower_def
      folder_json_def item0_def child_path_def dict_get_def)

lemma tree_item_None: "tree_item_of L path PNone = Inl AttributeError"
  by (simp add: tree_item_of_def)

lemmas fixture_defs = env0_simps world0_def table_serve_def ok_json_def not_found_def
  dict_get_def listing_def item0_def ci_tree_def ci_partial_def Let_def

lemmas fixture2_defs = fixture_defs ci_malformed_def

lemmas run_defs = collect_jobs_recursive.simps jenkins_request_nested_def jenkins_request_def
  add_crumb_def request_checked_def requests_request_def raise_for_status_def resp_json_def
  listed_items_def tree_item_job tree_item_folder tree_item_None child_path_def
  encoded_path_def path_parts_def quote_def quote_byte_def unreserved_def hex_digit_def

section \<open>Properties of the credential cache\<close>

lemma crumb_fetch_success:
  assumes "serve E (srv w) (crumb_request E) = (out, s')" and "fresh_token out tok"
  shows "crumb_fetch E w =
    (Inr tok, w\<lparr>srv := s', sent := sent w @ [crumb_request E], ticks := Suc (ticks w),
       crumb_token := tok, crumb_expires := Some (clock E (ticks w) + thirty_minutes)\<rparr>)"
  using assms
  by (auto simp: crumb_fetch_def request_checked_def requests_request_def crumb_request_def
      fresh_token_def raise_for_status_def resp_json_def datetime_now_def
      split: outcome.splits option.splits pyval.splits)

lemma crumb_fetch_failure:
  assumes "serve E (srv w) (crumb_request E) = (out, s')" and "crumb_unavailable out"
  shows "crumb_fetch E w = (Inr PNone, w\<lparr>srv := s', sent := sent w @ [crumb_request E]\<rparr>)"
  using assms
  by (auto simp: crumb_fetch_def request_checked_def requests_request_def crumb_request_def
      crumb_unavailable_def raise_for_status_def resp_json_def
      split: outcome.splits option.splits pyval.splits)

lemma crumb_hit:
  assumes "cache_valid E w"
  shows "get_jenkins_crumb E w = (Inr (crumb_token w), w\<lparr>ticks := Suc (ticks w)\<rparr>)"
  using assms
  by (auto simp: get_jenkins_crumb_def cache_valid_def datetime_now_def split: option.splits)

lemma crumb_miss:
  assumes "\<not> cache_valid E w"
  shows "get_jenkins_crumb E w = crumb_fetch E (at_fetch w)"
  using assms
  by (auto simp: get_jenkins_crumb_def cache_valid_def datetime_now_def at_fetch_def
      split: option.splits)


text \<open>
  The cases of the credential cache. When the cache holds a token and the clock reads
  less than its expiry, \<open>get_jenkins_crumb\<close> returns that token and nothing is requested
  (only the count of clock readings changes). Otherwise it sends exactly one request, the
  GET of the crumb issuer. If the reply carries a token, the token is returned and cached
  with the expiry thirty minutes after the clock reading taken when it is stored. If the
  fetch fails in one of the ways of \<open>crumb_unavailable\<close> (no reply, an error status, a
  body that is not JSON, an object without a true \<open>crumb\<close>), the result is \<open>None\<close>, no
  exception, and the cache is as it was. A body that is JSON but not an object is not
  among them: there the fetch raises (\<open>crumb_body_no_get\<close>).
\<close>

lemma get_jenkins_crumb_cases:
  "(cache_valid E w \<longrightarrow>
      get_jenkins_crumb E w = (Inr (crumb_token w), w\<lparr>ticks := Suc (ticks w)\<rparr>))
   \<and> (\<not> cache_valid E w \<and> serve E (srv w) (crumb_request E) = (out, s')
        \<and> fresh_token out tok \<longrightarrow>
      get_jenkins_crumb E w =
        (Inr tok,
         (at_fetch w)\<lparr>srv := s', sent := sent w @ [crumb_request E],
            ticks := Suc (ticks (at_fetch w)), crumb_token := tok,
            crumb_expires := Some (clock E (ticks (at_fetch w)) + thirty_minutes)\<rparr>))
   \<and> (\<not> cache_valid E w \<and> serve E (srv w) (crumb_request E) = (out, s')
        \<and> crumb_unavailable out \<longrightarrow>
      get_jenkins_crumb E w =
        (Inr PNone, (at_fetch w)\<lparr>srv := s', sent := sent w @ [crumb_request E]\<rparr>))"
proof (intro conjI impI)
  assume "cache_valid E w"
  then show "get_jenkins_crumb E w = (Inr (crumb_token w), w\<lparr>ticks := Suc (ticks w)\<rparr>)"
    by (rule crumb_hit)
next
  assume a: "\<not> cache_valid E w \<and> serve E (srv w) (crumb_request E) = (out, s')
    \<and> fresh_token out tok"
  have w: "srv (at_fetch w) = srv w" "sent (at_fetch w) = sent w"
    by (simp_all add: at_fetch_def)
  from a have "serve E (srv (at_fetch w)) (crumb_request E) = (out, s')"
    by (simp add: w)
  from crumb_fetch_success [OF this] a w crumb_miss [of E w]
  show "get_jenkins_crumb E w =
        (Inr tok,
         (at_fetch w)\<lparr>srv := s', sent := sent w @ [crumb_request E],
            ticks := Suc (ticks (at_fetch w)), crumb_token := tok,
            crumb_expires := Some (clock E (ticks (at_fetch w)) + thirty_minutes)\<rparr>)"
    by simp
next
  assume a: "\<not> cache_valid E w \<and> serve E (srv w) (crumb_request E) = (out, s')
    \<and> crumb_unavailable out"
  have w: "srv (at_fetch w) = srv w" "sent (at_fetch w) = sent w"
    by (simp_all add: at_fetch_def)
  from a have "serve E (srv (at_fetch w)) (crumb_request E) = (out, s')"
    by (simp add: w)
  from crumb_fetch_failure [OF this] a w crumb_miss [of E w]
  show "get_jenkins_crumb E w =
        (Inr PNone, (at_fetch w)\<lparr>srv := s', sent := sent w @ [crumb_request E]\<rparr>)"
    by simp
qed

lemma get_jenkins_crumb_cases_example:
  "cache_valid (env0 []) (world0\<lparr>crumb_token := PStr ''abc'', crumb_expires := Some 5000\<rparr>)
   \<and> get_jenkins_crumb (env0 [])
        (world0\<lparr>crumb_token := PStr ''abc'', crumb_expires := Some 5000\<rparr>)
      = (Inr (PStr ''abc''),
         world0\<lparr>crumb_token := PStr ''abc'', crumb_expires := Some 5000, ticks := 1\<rparr>)
   \<and> \<not> cache_valid (env0 [((GET, ''http://ci/crumbIssuer/api/json''),
          ok_json (PDict [(''crumb'', PStr ''xyz'')]))])
        (world0\<lparr>crumb_token := PStr ''abc'', crumb_expires := Some 0\<rparr>)
   \<and> fresh_token (ok_json (PDict [(''crumb'', PStr ''xyz'')])) (PStr ''xyz'')
   \<and> get_jenkins_crumb (env0 [((GET, ''http://ci/crumbIssuer/api/json''),
          ok_json (PDict [(''crumb'', PStr ''xyz'')]))])
        (world0\<lparr>crumb_token := PStr ''abc'', crumb_expires := Some 0\<rparr>)
      = (Inr (PStr ''xyz''),
         \<lparr>srv = 1, sent = [crumb_request (env0 [])], crumb_token = PStr ''xyz'',
          crumb_expires = Some (1000 + thirty_minutes), ticks = 2\<rparr>)
   \<and> \<not> cache_valid (env0 []) world0
   \<and> crumb_unavailable not_found
   \<and> get_jenkins_crumb (env0 []) world0
      = (Inr PNone, world0\<lparr>srv := 1, sent := [crumb_request (env0 [])]\<rparr>)"
  using
    get_jenkins_crumb_cases [of "env0 []"
      "world0\<lparr>crumb_token := PStr ''abc'', crumb_expires := Some 5000\<rparr>"]
    get_jenkins_crumb_cases [of
      "env0 [((GET, ''http://ci/crumbIssuer/api/json''),
          ok_json (PDict [(''crumb'', PStr ''xyz'')]))]"
      "world0\<lparr>crumb_token := PStr ''abc'', crumb_expires := Some 0\<rparr>"
      "ok_json (PDict [(''crumb'', PStr ''xyz'')])" 1 "PStr ''xyz''"]
    get_jenkins_crumb_cases [of "env0 []" world0 not_found 1]
  by (simp add: fixture_defs crumb_request_def cache_valid_def fresh_token_def
      crumb_unavailable_def at_fetch_def)

lemma crumb_body_no_get:
  assumes "serve E (srv w) (crumb_request E) = (Reply resp, s')"
    and "\<not> (400 \<le> status_code resp \<and> status_code resp < 600)"
    and "json_body resp = Some v" and "\<forall>kvs. v \<noteq> PDict kvs"
  shows "crumb_fetch E w
    = (Inl AttributeError, w\<lparr>srv := s', sent := sent w @ [crumb_request E]\<rparr>)"
  using assms
  by (cases v)
    (simp_all add: crumb_fetch_def request_checked_def requests_request_def crumb_request_def
      raise_for_status_def resp_json_def)

text \<open>
  Claim C2, the case that diverges. The crumb issuer answers 200 with a JSON body that is
  not an object (\<open>null\<close>, or the array \<open>[1, 2]\<close>): the body carries no token field, and
  \<open>get_jenkins_crumb\<close> raises \<open>AttributeError\<close>, where the claim has it return no token.
\<close>

theorem get_jenkins_crumb_body_not_object:
  "get_jenkins_crumb (env0 [((GET, ''http://ci/crumbIssuer/api/json''), ok_json PNone)]) world0
     = (Inl AttributeError, world0\<lparr>srv := 1, sent := [crumb_request (env0 [])]\<rparr>)
   \<and> get_jenkins_crumb
        (env0 [((GET, ''http://ci/crumbIssuer/api/json''), ok_json (PList [PInt 1, PInt 2]))])
        world0
     = (Inl AttributeError, world0\<lparr>srv := 1, sent := [crumb_request (env0 [])]\<rparr>)"
  by (simp add: get_jenkins_crumb_def crumb_fetch_def request_checked_def requests_request_def
      crumb_request_def raise_for_status_def resp_json_def fixture_defs)

section \<open>Properties of the tree walker\<close>

lemma add_crumb_GET: "add_crumb E GET hdrs w = (Inr hdrs, w)"
  by (simp add: add_crumb_def)

lemma fetch_listing:
  "(if path \<noteq> [] then jenkins_request_nested E GET path ''api/json'' [] None w
    else jenkins_request E GET ''api/json'' False [] None w)
   = request_checked E (listing_request E path) w"
  by (simp add: jenkins_request_nested_def jenkins_request_def add_crumb_GET
      listing_request_def)

lemma listing_request_headers: "req_headers (listing_request E path) = []"
  by (simp add: listing_request_def)

lemma request_checked_world:
  "req_headers rq = [] \<Longrightarrow> request_checked E rq w = (r, w') \<Longrightarrow>
   w' = w\<lparr>srv := snd (serve E (srv w) rq), sent := sent w @ [rq]\<rparr>"
  by (auto simp: request_checked_def requests_request_def split: prod.splits outcome.splits)

lemma fetched_refl: "fetched E base lo hi w w"
  unfolding fetched_def by (rule exI [of _ "[]"]) simp

lemma fetched_trans:
  assumes "fetched E base lo hi w w1" and "fetched E base lo hi w1 w2"
  shows "fetched E base lo hi w w2"
proof -
  from assms(1) obtain ps where ps: "sent w1 = sent w @ map (listing_request E) ps"
    "\<forall>p \<in> set ps. \<exists>names. p = foldl child_path base names
        \<and> lo \<le> length names \<and> int (length names) < hi"
    unfolding fetched_def by blast
  from assms(2) obtain qs where qs: "sent w2 = sent w1 @ map (listing_request E) qs"
    "\<forall>p \<in> set qs. \<exists>names. p = foldl child_path base names
        \<and> lo \<le> length names \<and> int (length names) < hi"
    unfolding fetched_def by blast
  from ps qs have "sent w2 = sent w @ map (listing_request E) (ps @ qs)" by simp
  moreover from ps qs have "\<forall>p \<in> set (ps @ qs). \<exists>names. p = foldl child_path base names
        \<and> lo \<le> length names \<and> int (length names) < hi" by auto
  ultimately show ?thesis unfolding fetched_def by blast
qed

lemma fetched_weaken: "fetched E base lo hi w w' \<Longrightarrow> lo' \<le> lo \<Longrightarrow> fetched E base lo' hi w w'"
  unfolding fetched_def by (meson le_trans)

lemma fetched_child:
  assumes "fetched E (child_path base name) 0 (hi - 1) w w'"
  shows "fetched E base 1 hi w w'"
proof -
  from assms obtain ps where ps: "sent w' = sent w @ map (listing_request E) ps"
    "\<forall>p \<in> set ps. \<exists>names. p = foldl child_path (child_path base name) names
        \<and> int (length names) < hi - 1"
    unfolding fetched_def by auto
  have "\<exists>names. p = foldl child_path base names \<and> 1 \<le> length names
      \<and> int (length names) < hi" if "p \<in> set ps" for p
  proof -
    from ps(2) that obtain names where "p = foldl child_path (child_path base name) names"
      "int (length names) < hi - 1" by blast
    then have "p = foldl child_path base (name # names) \<and> 1 \<le> length (name # names)
      \<and> int (length (name # names)) < hi" by simp
    then show ?thesis by blast
  qed
  with ps(1) show ?thesis unfolding fetched_def by blast
qed

lemma fetched_request:
  assumes "request_checked E (listing_request E base) w = (r, w')" and "0 < hi"
  shows "fetched E base 0 hi w w'"
proof -
  from request_checked_world [OF listing_request_headers assms(1)]
  have "sent w' = sent w @ map (listing_request E) [base]" by simp
  moreover have "\<forall>p \<in> set [base]. \<exists>names. p = foldl child_path base names
      \<and> 0 \<le> length names \<and> int (length names) < hi"
    using assms(2) by (auto intro: exI [of _ "[]"])
  ultimately show ?thesis unfolding fetched_def by blast
qed

lemma required_str_Inr: "required_str v = Inr s \<Longrightarrow> v = PStr s"
  by (cases v) auto

lemma tree_item_of_full_name:
  assumes "tree_item_of L path item = Inr ti"
  shows "ti_full_name ti = child_path path (ti_name ti)"
  using assms
  by (auto simp: tree_item_of_def new_JobTreeItem_def child_path_def Let_def
      split: sum.splits pyval.splits if_splits dest!: required_str_Inr)

lemma collect_fetched:
  "\<forall>r w'. collect_jobs_recursive E path md cd w = (r, w') \<longrightarrow>
      fetched E path 0 (md - cd) w w'"
  "\<forall>r w'. collect_loop E path md cd items jobs w = (r, w') \<longrightarrow>
      fetched E path 1 (md - cd) w w'"
proof (induction E path md cd w and E path md cd items jobs w
    rule: collect_jobs_recursive_collect_loop.induct)
  case (1 E path md cd w)
  show ?case
  proof (intro allI impI)
    fix r w'
    assume run: "collect_jobs_recursive E path md cd w = (r, w')"
    show "fetched E path 0 (md - cd) w w'"
    proof (cases "md \<le> cd")
      case True
      with run have "w' = w" by (simp add: collect_jobs_recursive.simps)
      then show ?thesis by (simp add: fetched_refl)
    next
      case False
      obtain x w1 where rq: "request_checked E (listing_request E path) w = (x, w1)"
        by (cases "request_checked E (listing_request E path) w")
      from False have pos: "0 < md - cd" by simp
      from fetched_request [OF rq pos] have f1: "fetched E path 0 (md - cd) w w1" .
      show ?thesis
      proof (cases x)
        case (Inl e)
        with run rq False have "w' = w1"
          by (simp add: collect_jobs_recursive.simps fetch_listing)
        with f1 show ?thesis by simp
      next
        case (Inr resp)
        show ?thesis
        proof (cases "listed_items resp")
          case (Inl e)
          with run rq False Inr have "w' = w1"
            by (simp add: collect_jobs_recursive.simps fetch_listing)
          with f1 show ?thesis by simp
        next
          case items: (Inr its)
          obtain y w2 where lp: "collect_loop E path md cd its [] w1 = (y, w2)"
            by (cases "collect_loop E path md cd its [] w1")
          have "fetched E path 1 (md - cd) w1 w2"
            using "1.IH" [of x w1 resp its] False rq Inr items lp
            by (simp add: fetch_listing)
          then have f2: "fetched E path 0 (md - cd) w1 w2"
            by (rule fetched_weaken) simp
          from run rq False Inr items lp have "w' = w2"
            by (simp add: collect_jobs_recursive.simps fetch_listing split: sum.splits)
          with fetched_trans [OF f1 f2] show ?thesis by simp
        qed
      qed
    qed
  qed
next
  case (2 E path md cd jobs w)
  show ?case by (simp add: fetched_refl)
next
  case (3 E path md cd item items jobs w)
  show ?case
  proof (intro allI impI)
    fix r w'
    assume run: "collect_loop E path md cd (item # items) jobs w = (r, w')"
    show "fetched E path 1 (md - cd) w w'"
    proof (cases "tree_item_of (lib E) path item")
      case (Inl e)
      with run have "w' = w" by simp
      then show ?thesis by (simp add: fetched_refl)
    next
      case (Inr ti)
      show ?thesis
      proof (cases "ti_type ti = ''folder''")
        case False
        with run Inr have "collect_loop E path md cd items (jobs @ [ti]) w = (r, w')"
          by simp
        with "3.IH"(3) [OF Inr False] show ?thesis by blast
      next
        case True
        obtain x w1 where sub:
          "collect_jobs_recursive E (ti_full_name ti) md (cd + 1) w = (x, w1)"
          by (cases "collect_jobs_recursive E (ti_full_name ti) md (cd + 1) w")
        from "3.IH"(1) [OF Inr True] sub
        have "fetched E (ti_full_name ti) 0 (md - (cd + 1)) w w1" by blast
        then have "fetched E (child_path path (ti_name ti)) 0 (md - cd - 1) w w1"
          by (simp add: tree_item_of_full_name [OF Inr] algebra_simps)
        then have f1: "fetched E path 1 (md - cd) w w1" by (rule fetched_child)
        show ?thesis
        proof (cases x)
          case (Inl e)
          with run Inr True sub have "w' = w1" by simp
          with f1 show ?thesis by simp
        next
          case sj: (Inr sub_jobs)
          with run Inr True sub
          have "collect_loop E path md cd items (jobs @ [ti] @ sub_jobs) w1 = (r, w')"
            by simp
          with "3.IH"(2) [OF Inr True sub [symmetric] sj]
          have "fetched E path 1 (md - cd) w1 w'" by blast
          with f1 show ?thesis by (rule fetched_trans)
        qed
      qed
    qed
  qed
qed

lemma collect_returns:
  "\<exists>items w'. collect_jobs_recursive E path md cd w = (Inr items, w')"
  by (subst collect_jobs_recursive.simps) (auto split: prod.splits sum.splits)

lemma collect_at_bound:
  "md \<le> cd \<Longrightarrow> collect_jobs_recursive E path md cd w = (Inr [], w)"
  by (simp add: collect_jobs_recursive.simps)

lemma collect_fetch_fails:
  assumes "cd < md" and "serve E (srv w) (listing_request E path) = (out, s')"
    and "fetch_fails out"
  shows "collect_jobs_recursive E path md cd w
    = (Inr [], w\<lparr>srv := s', sent := sent w @ [listing_request E path]\<rparr>)"
  using assms
  by (subst collect_jobs_recursive.simps)
    (auto simp: fetch_listing request_checked_def requests_request_def fetch_fails_def
      raise_for_status_def listing_request_headers split: outcome.splits)

lemma loop_at_bound:
  assumes "tree_item_of (lib E) path item = Inr ti" and "md \<le> cd + 1"
  shows "collect_loop E path md cd (item # items) jobs w
    = collect_loop E path md cd items (jobs @ [ti]) w"
  using assms by (simp add: collect_at_bound)

lemma team_item:
  "tree_item_of lib0 [] (folder_json ''team'') = Inr (item0 ''team'' ''team'' ''folder'')"
  by (simp add: tree_item_folder child_path_def)

lemma loop_walk_children:
  assumes sub: "\<And>p w. collect_jobs_recursive E p md (cd + 1) w
      = (Inr (fst (fst (sub p w))), snd (sub p w))"
  shows "snd (collect_loop E path md cd items jobs w)
      = snd (walk_children sub (listed (lib E) path (takeWhile (well_formed (lib E) path) items)) w)
    \<and> (list_all (well_formed (lib E) path) items \<longrightarrow>
         fst (collect_loop E path md cd items jobs w)
         = Inr (jobs @ fst (fst (walk_children sub (listed (lib E) path items) w))))
    \<and> (\<not> list_all (well_formed (lib E) path) items \<longrightarrow>
         (\<exists>e. fst (collect_loop E path md cd items jobs w) = Inl e))"
proof (induction items arbitrary: jobs w)
  case Nil
  show ?case by (simp add: listed_def)
next
  case (Cons item items)
  show ?case
  proof (cases "tree_item_of (lib E) path item")
    case (Inl e)
    then have nwf: "\<not> well_formed (lib E) path item" by (simp add: well_formed_def)
    with Inl show ?thesis by (simp add: listed_def)
  next
    case (Inr ti)
    then have wf: "well_formed (lib E) path item" by (simp add: well_formed_def)
    have l: "listed (lib E) path (item # xs) = ti # listed (lib E) path xs" for xs
      using Inr by (simp add: listed_def)
    show ?thesis
    proof (cases "ti_type ti = ''folder''")
      case False
      with Inr wf l Cons.IH [of "jobs @ [ti]" w] show ?thesis
        by (simp add: split_beta)
    next
      case True
      obtain below v1 w1 where s: "sub (ti_full_name ti) w = ((below, v1), w1)"
        by (metis prod.exhaust)
      with sub [of "ti_full_name ti" w]
      have c: "collect_jobs_recursive E (ti_full_name ti) md (cd + 1) w = (Inr below, w1)"
        by simp
      from Inr wf l True s c Cons.IH [of "jobs @ [ti] @ below" w1] show ?thesis
        by (simp add: split_beta)
    qed
  qed
qed

lemma collect_explore:
  "collect_jobs_recursive E path md cd w
   = (Inr (fst (fst (explore (nat (md - cd)) lvl E path w))),
      snd (explore (nat (md - cd)) lvl E path w))"
proof (induction "nat (md - cd)" arbitrary: cd path w lvl)
  case 0
  then have "md \<le> cd" by simp
  with 0 show ?case by (simp add: collect_at_bound)
next
  case (Suc k)
  then have lt: "cd < md" and k: "nat (md - (cd + 1)) = k" by simp_all
  have sub: "collect_jobs_recursive E p md (cd + 1) w
      = (Inr (fst (fst (explore k (Suc lvl) E p w))), snd (explore k (Suc lvl) E p w))"
    for p w using Suc.hyps(1) [of "cd + 1" p w "Suc lvl"] k by simp
  note lp = loop_walk_children [of E md cd "explore k (Suc lvl) E", OF sub]
  obtain x w1 where rq: "request_checked E (listing_request E path) w = (x, w1)"
    by (cases "request_checked E (listing_request E path) w")
  show ?case
  proof (cases x)
    case (Inl e)
    with rq lt Suc.hyps(2) [symmetric] show ?thesis
      by (subst collect_jobs_recursive.simps) (simp add: fetch_listing)
  next
    case (Inr resp)
    show ?thesis
    proof (cases "listed_items resp")
      case (Inl e)
      with rq lt Inr Suc.hyps(2) [symmetric] show ?thesis
        by (subst collect_jobs_recursive.simps) (simp add: fetch_listing)
    next
      case items: (Inr its)
      note l = lp [of path its "[]" w1]
      show ?thesis
      proof (cases "list_all (well_formed (lib E) path) its")
        case True
        then have tw: "takeWhile (well_formed (lib E) path) its = its"
          by (simp add: list_all_iff takeWhile_eq_all_conv)
        from l True have "collect_loop E path md cd its [] w1
          = (Inr (fst (fst (walk_children (explore k (Suc lvl) E) (listed (lib E) path its) w1))),
             snd (walk_children (explore k (Suc lvl) E) (listed (lib E) path its) w1))"
          by (simp add: tw prod_eq_iff)
        with rq lt Inr items Suc.hyps(2) [symmetric] show ?thesis
          by (subst collect_jobs_recursive.simps) (simp add: fetch_listing split_beta tw True)
      next
        case False
        with l obtain e where "collect_loop E path md cd its [] w1
          = (Inl e, snd (walk_children (explore k (Suc lvl) E)
               (listed (lib E) path (takeWhile (well_formed (lib E) path) its)) w1))"
          by (auto simp: prod_eq_iff)
        with rq lt Inr items False Suc.hyps(2) [symmetric] show ?thesis
          by (subst collect_jobs_recursive.simps) (simp add: fetch_listing split_beta)
      qed
    qed
  qed
qed


lemma walk_children_sent:
  assumes "\<And>p w. sent (snd (sub p w))
      = sent w @ map (\<lambda>(l, p). listing_request E p) (snd (fst (sub p w)))"
  shows "sent (snd (walk_children sub tis w))
      = sent w @ map (\<lambda>(l, p). listing_request E p) (snd (fst (walk_children sub tis w)))"
proof (induction tis arbitrary: w)
  case Nil
  show ?case by simp
next
  case (Cons ti tis)
  show ?case
  proof (cases "ti_type ti = ''folder''")
    case False
    with Cons [of w] show ?thesis by (simp add: split_beta)
  next
    case True
    with assms [of "ti_full_name ti" w] Cons [of "snd (sub (ti_full_name ti) w)"]
    show ?thesis by (simp add: split_beta)
  qed
qed

lemma walk_children_levels:
  assumes "\<And>p w. list_all P (snd (fst (sub p w)))"
  shows "list_all P (snd (fst (walk_children sub tis w)))"
proof (induction tis arbitrary: w)
  case Nil
  show ?case by simp
next
  case (Cons ti tis)
  show ?case
  proof (cases "ti_type ti = ''folder''")
    case False
    with Cons [of w] show ?thesis by (simp add: split_beta)
  next
    case True
    with assms [of "ti_full_name ti" w] Cons [of "snd (sub (ti_full_name ti) w)"]
    show ?thesis by (simp add: split_beta)
  qed
qed

lemma request_checked_sent:
  "sent (snd (request_checked E (listing_request E path) w))
   = sent w @ [listing_request E path]"
  by (simp add: request_checked_def requests_request_def listing_request_headers
      split: prod.splits outcome.splits)

lemma explore_sent:
  "sent (snd (explore k lvl E path w))
   = sent w @ map (\<lambda>(l, p). listing_request E p) (snd (fst (explore k lvl E path w)))"
proof (induction k arbitrary: lvl path w)
  case 0
  show ?case by simp
next
  case (Suc k)
  obtain x w1 where rq: "request_checked E (listing_request E path) w = (x, w1)"
    by (cases "request_checked E (listing_request E path) w")
  with request_checked_sent [of E path w]
  have s1: "sent w1 = sent w @ [listing_request E path]" by simp
  show ?case
  proof (cases x)
    case (Inl e)
    with rq s1 show ?thesis by simp
  next
    case (Inr resp)
    show ?thesis
    proof (cases "listed_items resp")
      case (Inl e)
      with rq s1 Inr show ?thesis by simp
    next
      case items: (Inr its)
      from walk_children_sent [of "explore k (Suc lvl) E" E, OF Suc]
      have "sent (snd (walk_children (explore k (Suc lvl) E) tis w1))
        = sent w1 @ map (\<lambda>(l, p). listing_request E p)
            (snd (fst (walk_children (explore k (Suc lvl) E) tis w1)))" for tis .
      with rq s1 Inr items show ?thesis by (simp add: split_beta)
    qed
  qed
qed

lemma explore_levels:
  "list_all (\<lambda>(l, p). lvl \<le> l \<and> l < lvl + k) (snd (fst (explore k lvl E path w)))"
proof (induction k arbitrary: lvl path w)
  case 0
  show ?case by simp
next
  case (Suc k)
  have sub: "list_all (\<lambda>(l, p). lvl \<le> l \<and> l < lvl + Suc k)
      (snd (fst (explore k (Suc lvl) E p w)))" for p w
    using Suc [of "Suc lvl" p w] by (auto simp: list_all_iff)
  note ch = walk_children_levels [of "\<lambda>(l, p). lvl \<le> l \<and> l < lvl + Suc k"
      "explore k (Suc lvl) E", OF sub]
  obtain x w1 where rq: "request_checked E (listing_request E path) w = (x, w1)"
    by (cases "request_checked E (listing_request E path) w")
  show ?case
  proof (cases x)
    case (Inl e)
    with rq show ?thesis by simp
  next
    case (Inr resp)
    show ?thesis
    proof (cases "listed_items resp")
      case (Inl e)
      with rq Inr show ?thesis by simp
    next
      case items: (Inr its)
      obtain found visits w2 where wc: "walk_children (explore k (Suc lvl) E)
          (listed (lib E) path (takeWhile (well_formed (lib E) path) its)) w1
          = ((found, visits), w2)"
        by (metis prod.exhaust)
      with ch [of "listed (lib E) path (takeWhile (well_formed (lib E) path) its)" w1]
      have "list_all (\<lambda>(l, p). lvl \<le> l \<and> l < lvl + Suc k) visits" by simp
      with rq Inr items wc show ?thesis by simp
    qed
  qed
qed

text \<open>
  Claim C4. The walk is a total function (its termination is proved with its
  definition). At a depth that has reached \<open>max_depth\<close> it returns the empty list and
  leaves the state as it is, so nothing is requested; with \<open>max_depth = 0\<close> that is the
  case at the start, whatever the server holds. In every case the walk is the walk by
  levels with \<open>max_depth - current_depth\<close> levels: it returns the same items in the same
  state, the requests it sends are the listings of the visited paths, in order, and every
  visited path was reached at a level \<open>lvl\<close> below the start with
  \<open>current_depth + lvl < max_depth\<close>. So the content of a folder listed at the last level is
  never requested: in the loop, a child listed when at most one level is left is added to
  the result and the state stays as it is.
\<close>

theorem collect_jobs_recursive_depth_bound:
  "(max_depth \<le> current_depth \<longrightarrow>
      collect_jobs_recursive E path max_depth current_depth w = (Inr [], w))
   \<and> collect_jobs_recursive E path 0 0 w = (Inr [], w)
   \<and> (explore (nat (max_depth - current_depth)) 0 E path w = ((found, visits), w') \<longrightarrow>
        collect_jobs_recursive E path max_depth current_depth w = (Inr found, w')
        \<and> sent w' = sent w @ map (\<lambda>(lvl, p). listing_request E p) visits
        \<and> list_all (\<lambda>(lvl, p). current_depth + int lvl < max_depth) visits)
   \<and> (tree_item_of (lib E) path item = Inr ti \<and> max_depth \<le> current_depth + 1 \<longrightarrow>
      collect_loop E path max_depth current_depth (item # items) jobs w
      = collect_loop E path max_depth current_depth items (jobs @ [ti]) w)"
proof (intro conjI impI)
  assume "max_depth \<le> current_depth"
  then show "collect_jobs_recursive E path max_depth current_depth w = (Inr [], w)"
    by (rule collect_at_bound)
next
  show "collect_jobs_recursive E path 0 0 w = (Inr [], w)"
    by (rule collect_at_bound) simp
next
  assume e: "explore (nat (max_depth - current_depth)) 0 E path w = ((found, visits), w')"
  with collect_explore [of E path max_depth current_depth w 0]
  show "collect_jobs_recursive E path max_depth current_depth w = (Inr found, w')"
    by simp
  from e explore_sent [of "nat (max_depth - current_depth)" 0 E path w]
  show "sent w' = sent w @ map (\<lambda>(lvl, p). listing_request E p) visits"
    by simp
  from e explore_levels [of 0 "nat (max_depth - current_depth)" E path w]
  have "list_all (\<lambda>(l, p). l < nat (max_depth - current_depth)) visits"
    by simp
  then show "list_all (\<lambda>(lvl, p). current_depth + int lvl < max_depth) visits"
    by (auto simp: list_all_iff)
next
  assume "tree_item_of (lib E) path item = Inr ti \<and> max_depth \<le> current_depth + 1"
  then have "tree_item_of (lib E) path item = Inr ti" and "max_depth \<le> current_depth + 1"
    by simp_all
  then show "collect_loop E path max_depth current_depth (item # items) jobs w
      = collect_loop E path max_depth current_depth items (jobs @ [ti]) w"
    by (rule loop_at_bound)
qed

lemma explore_two_levels:
  "explore (nat (2 - 0)) 0 (env0 ci_tree) [] world0
   = (([item0 ''build-a'' ''build-a'' ''job'', item0 ''team'' ''team'' ''folder'',
        item0 ''deploy'' ''team/deploy'' ''job'', item0 ''sub'' ''team/sub'' ''folder''],
       [(0, []), (1, ''team'')]),
      world0\<lparr>srv := 2, sent := [listing_request (env0 ci_tree) [],
         listing_request (env0 ci_tree) ''team'']\<rparr>)"
  by (simp add: fixture_defs run_defs listing_request_def eval_nat_numeral listed_def
      well_formed_def)


theorem collect_jobs_recursive_depth_bound_witness:
  "(2::int) \<le> 5
   \<and> collect_jobs_recursive (env0 ci_tree) ''team'' 2 5 world0 = (Inr [], world0)
   \<and> collect_jobs_recursive (env0 ci_tree) [] 0 0 world0 = (Inr [], world0)
   \<and> explore (nat (2 - 0)) 0 (env0 ci_tree) [] world0
      = (([item0 ''build-a'' ''build-a'' ''job'', item0 ''team'' ''team'' ''folder'',
           item0 ''deploy'' ''team/deploy'' ''job'', item0 ''sub'' ''team/sub'' ''folder''],
          [(0, []), (1, ''team'')]),
         world0\<lparr>srv := 2, sent := [listing_request (env0 ci_tree) [],
            listing_request (env0 ci_tree) ''team'']\<rparr>)
   \<and> collect_jobs_recursive (env0 ci_tree) [] 2 0 world0
      = (Inr [item0 ''build-a'' ''build-a'' ''job'', item0 ''team'' ''team'' ''folder'',
           item0 ''deploy'' ''team/deploy'' ''job'', item0 ''sub'' ''team/sub'' ''folder''],
         world0\<lparr>srv := 2, sent := [listing_request (env0 ci_tree) [],
            listing_request (env0 ci_tree) ''team'']\<rparr>)
   \<and> list_all (\<lambda>(lvl, p). 0 + int lvl < 2) [(0, []), (1::nat, ''team'')]
   \<and> tree_item_of (lib (env0 ci_tree)) [] (folder_json ''team'')
      = Inr (item0 ''team'' ''team'' ''folder'')
   \<and> (1::int) \<le> 0 + 1
   \<and> collect_loop (env0 ci_tree) [] 1 0 [folder_json ''team''] [] world0
      = (Inr [item0 ''team'' ''team'' ''folder''], world0)"
proof -
  have t: "tree_item_of (lib (env0 ci_tree)) [] (folder_json ''team'')
      = Inr (item0 ''team'' ''team'' ''folder'')"
    using team_item by (simp add: env0_simps)
  note a = collect_jobs_recursive_depth_bound
    [where max_depth = 2 and current_depth = 5 and E = "env0 ci_tree" and path = "''team''"
      and w = world0]
  note b = collect_jobs_recursive_depth_bound
    [where max_depth = 1 and current_depth = 0 and E = "env0 ci_tree" and path = "[]"
      and w = world0 and item = "folder_json ''team''"
      and ti = "item0 ''team'' ''team'' ''folder''" and items = "[]" and jobs = "[]"]
  note c = collect_jobs_recursive_depth_bound
    [where max_depth = 2 and current_depth = 0 and E = "env0 ci_tree" and path = "[]"
      and w = world0, THEN conjunct2, THEN conjunct2, THEN conjunct1, rule_format,
      OF explore_two_levels]
  from a have 1: "collect_jobs_recursive (env0 ci_tree) ''team'' 2 5 world0 = (Inr [], world0)"
    by simp
  from b have 2: "collect_jobs_recursive (env0 ci_tree) [] 0 0 world0 = (Inr [], world0)"
    by simp
  from b t have 4: "collect_loop (env0 ci_tree) [] 1 0 [folder_json ''team''] [] world0
      = (Inr [item0 ''team'' ''team'' ''folder''], world0)"
    by simp
  from c have 3: "collect_jobs_recursive (env0 ci_tree) [] 2 0 world0
      = (Inr [item0 ''build-a'' ''build-a'' ''job'', item0 ''team'' ''team'' ''folder'',
           item0 ''deploy'' ''team/deploy'' ''job'', item0 ''sub'' ''team/sub'' ''folder''],
         world0\<lparr>srv := 2, sent := [listing_request (env0 ci_tree) [],
            listing_request (env0 ci_tree) ''team'']\<rparr>)"
    and 5: "list_all (\<lambda>(lvl, p). 0 + int lvl < 2) [(0, []), (1::nat, ''team'')]"
    by simp_all
  from 1 2 3 4 5 t explore_two_levels show ?thesis by simp
qed

lemma loop_malformed:
  assumes "\<not> list_all (well_formed (lib E) path) items"
  shows "\<exists>e w'. collect_loop E path md cd items jobs w = (Inl e, w')"
proof -
  have sub: "collect_jobs_recursive E p md (cd + 1) w
      = (Inr (fst (fst (explore (nat (md - (cd + 1))) 0 E p w))),
         snd (explore (nat (md - (cd + 1))) 0 E p w))" for p w
    by (rule collect_explore)
  from loop_walk_children [of E md cd "explore (nat (md - (cd + 1))) 0 E", OF sub,
      of path items jobs w] assms
  show ?thesis by (metis prod.collapse)
qed

lemma loop_accumulates:
  assumes "list_all (well_formed (lib E) path) items"
    and "walk_children (explore (nat (md - cd - 1)) 1 E) (listed (lib E) path items) w
      = ((found, visits), w')"
  shows "collect_loop E path md cd items jobs w = (Inr (jobs @ found), w')"
proof -
  have sub: "collect_jobs_recursive E p md (cd + 1) w
      = (Inr (fst (fst (explore (nat (md - cd - 1)) 1 E p w))),
         snd (explore (nat (md - cd - 1)) 1 E p w))" for p w
    using collect_explore [of E p md "cd + 1" w 1] by (simp add: algebra_simps)
  from assms(1) have tw: "takeWhile (well_formed (lib E) path) items = items"
    by (simp add: list_all_iff takeWhile_eq_all_conv)
  from loop_walk_children [of E md cd "explore (nat (md - cd - 1)) 1 E", OF sub,
      of path items jobs w] assms
  show ?thesis unfolding tw by (simp add: prod_eq_iff)
qed

lemma collect_accumulates:
  assumes "cd < md" and "serve E (srv w) (listing_request E path) = (Reply resp, s')"
    and "\<not> (400 \<le> status_code resp \<and> status_code resp < 600)"
    and "listed_items resp = Inr items" and "list_all (well_formed (lib E) path) items"
    and "walk_children (explore (nat (md - cd - 1)) 1 E) (listed (lib E) path items)
          (w\<lparr>srv := s', sent := sent w @ [listing_request E path]\<rparr>)
      = ((found, visits), w')"
  shows "collect_jobs_recursive E path md cd w = (Inr found, w')"
proof -
  let ?w1 = "w\<lparr>srv := s', sent := sent w @ [listing_request E path]\<rparr>"
  from assms(2,3) have rq: "request_checked E (listing_request E path) w = (Inr resp, ?w1)"
    by (simp add: request_checked_def requests_request_def raise_for_status_def
        listing_request_headers)
  from loop_accumulates [OF assms(5,6), of "[]"]
  have "collect_loop E path md cd items [] ?w1 = (Inr found, w')" by simp
  with assms(1,4) rq show ?thesis
    by (subst collect_jobs_recursive.simps) (simp add: fetch_listing)
qed

lemma collect_malformed:
  assumes "cd < md" and "serve E (srv w) (listing_request E path) = (Reply resp, s')"
    and "\<not> (400 \<le> status_code resp \<and> status_code resp < 600)"
    and "listed_items resp = Inr items" and "\<not> list_all (well_formed (lib E) path) items"
  shows "fst (collect_jobs_recursive E path md cd w) = Inr []"
proof -
  let ?w1 = "w\<lparr>srv := s', sent := sent w @ [listing_request E path]\<rparr>"
  from assms(2,3) have rq: "request_checked E (listing_request E path) w = (Inr resp, ?w1)"
    by (simp add: request_checked_def requests_request_def raise_for_status_def
        listing_request_headers)
  from loop_malformed [OF assms(5), of md cd "[]" ?w1] obtain e w' where
    "collect_loop E path md cd items [] ?w1 = (Inl e, w')" by blast
  with assms(1,4) rq show ?thesis
    by (subst collect_jobs_recursive.simps) (simp add: fetch_listing)
qed

text \<open>
  Claim C7, as the code has it. The walk never raises: it returns a list in every case.
  When the fetch of a path fails (network or HTTP error), the walk of that path returns
  the empty list. While the elements of a listing are well-formed, the loop adds to what
  it has accumulated each listed child, a folder followed by the walk of that folder
  (empty when its fetch fails), and a walk whose listing is well-formed returns exactly
  these items. When an element of the listing is malformed, the walk of that path returns
  the empty list: what the loop had accumulated there is dropped. The walk of a folder
  that the pass over the children stands for is the walk of the code at the next depth
  (the last part of the statement).
\<close>

theorem collect_jobs_recursive_partial_results:
  "(\<exists>items w'. collect_jobs_recursive E path max_depth current_depth w = (Inr items, w'))
   \<and> (current_depth < max_depth \<and> serve E (srv w) (listing_request E path) = (out, s')
        \<and> fetch_fails out \<longrightarrow>
      collect_jobs_recursive E path max_depth current_depth w
      = (Inr [], w\<lparr>srv := s', sent := sent w @ [listing_request E path]\<rparr>))
   \<and> (list_all (well_formed (lib E) path) items
        \<and> walk_children (explore (nat (max_depth - current_depth - 1)) 1 E)
            (listed (lib E) path items) w = ((found, visits), w') \<longrightarrow>
      collect_loop E path max_depth current_depth items jobs w = (Inr (jobs @ found), w'))
   \<and> (current_depth < max_depth
        \<and> serve E (srv w) (listing_request E path) = (Reply resp, s')
        \<and> \<not> (400 \<le> status_code resp \<and> status_code resp < 600)
        \<and> listed_items resp = Inr items
        \<and> list_all (well_formed (lib E) path) items
        \<and> walk_children (explore (nat (max_depth - current_depth - 1)) 1 E)
            (listed (lib E) path items)
            (w\<lparr>srv := s', sent := sent w @ [listing_request E path]\<rparr>)
          = ((found, visits), w') \<longrightarrow>
      collect_jobs_recursive E path max_depth current_depth w = (Inr found, w'))
   \<and> (current_depth < max_depth
        \<and> serve E (srv w) (listing_request E path) = (Reply resp, s')
        \<and> \<not> (400 \<le> status_code resp \<and> status_code resp < 600)
        \<and> listed_items resp = Inr items
        \<and> \<not> list_all (well_formed (lib E) path) items \<longrightarrow>
      fst (collect_jobs_recursive E path max_depth current_depth w) = Inr [])
   \<and> collect_jobs_recursive E folder max_depth (current_depth + 1) w0
      = (Inr (fst (fst (explore (nat (max_depth - current_depth - 1)) 1 E folder w0))),
         snd (explore (nat (max_depth - current_depth - 1)) 1 E folder w0))"
proof (intro conjI impI)
  show "\<exists>items w'. collect_jobs_recursive E path max_depth current_depth w = (Inr items, w')"
    by (rule collect_returns)
next
  assume "current_depth < max_depth \<and> serve E (srv w) (listing_request E path) = (out, s')
        \<and> fetch_fails out"
  then have "current_depth < max_depth"
    and "serve E (srv w) (listing_request E path) = (out, s')" and "fetch_fails out"
    by simp_all
  then show "collect_jobs_recursive E path max_depth current_depth w
      = (Inr [], w\<lparr>srv := s', sent := sent w @ [listing_request E path]\<rparr>)"
    by (rule collect_fetch_fails)
next
  assume "list_all (well_formed (lib E) path) items
        \<and> walk_children (explore (nat (max_depth - current_depth - 1)) 1 E)
            (listed (lib E) path items) w = ((found, visits), w')"
  then have "list_all (well_formed (lib E) path) items"
    and "walk_children (explore (nat (max_depth - current_depth - 1)) 1 E)
            (listed (lib E) path items) w = ((found, visits), w')"
    by simp_all
  then show "collect_loop E path max_depth current_depth items jobs w
      = (Inr (jobs @ found), w')"
    by (rule loop_accumulates)
next
  assume "current_depth < max_depth
        \<and> serve E (srv w) (listing_request E path) = (Reply resp, s')
        \<and> \<not> (400 \<le> status_code resp \<and> status_code resp < 600)
        \<and> listed_items resp = Inr items
        \<and> list_all (well_formed (lib E) path) items
        \<and> walk_children (explore (nat (max_depth - current_depth - 1)) 1 E)
            (listed (lib E) path items)
            (w\<lparr>srv := s', sent := sent w @ [listing_request E path]\<rparr>)
          = ((found, visits), w')"
  then have "current_depth < max_depth"
    and "serve E (srv w) (listing_request E path) = (Reply resp, s')"
    and "\<not> (400 \<le> status_code resp \<and> status_code resp < 600)"
    and "listed_items resp = Inr items"
    and "list_all (well_formed (lib E) path) items"
    and "walk_children (explore (nat (max_depth - current_depth - 1)) 1 E)
            (listed (lib E) path items)
            (w\<lparr>srv := s', sent := sent w @ [listing_request E path]\<rparr>)
          = ((found, visits), w')"
    by simp_all
  then show "collect_jobs_recursive E path max_depth current_depth w = (Inr found, w')"
    by (rule collect_accumulates)
next
  assume "current_depth < max_depth
        \<and> serve E (srv w) (listing_request E path) = (Reply resp, s')
        \<and> \<not> (400 \<le> status_code resp \<and> status_code resp < 600)
        \<and> listed_items resp = Inr items
        \<and> \<not> list_all (well_formed (lib E) path) items"
  then have "current_depth < max_depth"
    and "serve E (srv w) (listing_request E path) = (Reply resp, s')"
    and "\<not> (400 \<le> status_code resp \<and> status_code resp < 600)"
    and "listed_items resp = Inr items"
    and "\<not> list_all (well_formed (lib E) path) items"
    by simp_all
  then show "fst (collect_jobs_recursive E path max_depth current_depth w) = Inr []"
    by (rule collect_malformed)
next
  have "max_depth - (current_depth + 1) = max_depth - current_depth - 1"
    by simp
  with collect_explore [of E folder max_depth "current_depth + 1" w0 1]
  show "collect_jobs_recursive E folder max_depth (current_depth + 1) w0
      = (Inr (fst (fst (explore (nat (max_depth - current_depth - 1)) 1 E folder w0))),
         snd (explore (nat (max_depth - current_depth - 1)) 1 E folder w0))"
    by simp
qed

lemma children_full:
  "walk_children (explore (nat (3 - 0 - 1)) 1 (env0 ci_tree))
     (listed (lib (env0 ci_tree)) [] [job_json ''build-a'', folder_json ''team''])
     (world0\<lparr>srv := 1, sent := sent world0 @ [listing_request (env0 ci_tree) []]\<rparr>)
   = (([item0 ''build-a'' ''build-a'' ''job'', item0 ''team'' ''team'' ''folder'',
        item0 ''deploy'' ''team/deploy'' ''job'', item0 ''sub'' ''team/sub'' ''folder'',
        item0 ''build-b'' ''team/sub/build-b'' ''job''],
       [(1, ''team''), (2, ''team/sub'')]),
      world0\<lparr>srv := 3, sent := [listing_request (env0 ci_tree) [],
         listing_request (env0 ci_tree) ''team'', listing_request (env0 ci_tree) ''team/sub'']\<rparr>)"
  by (simp add: fixture_defs run_defs listing_request_def eval_nat_numeral listed_def
      well_formed_def)

lemma children_partial:
  "walk_children (explore (nat (3 - 0 - 1)) 1 (env0 ci_partial))
     (listed (lib (env0 ci_partial)) [] [folder_json ''team'', job_json ''build-z''])
     world0
   = (([item0 ''team'' ''team'' ''folder'', item0 ''build-z'' ''build-z'' ''job''],
       [(1, ''team'')]),
      world0\<lparr>srv := 1, sent := [listing_request (env0 ci_partial) ''team'']\<rparr>)"
  by (simp add: fixture_defs run_defs listing_request_def eval_nat_numeral listed_def
      well_formed_def)

theorem collect_jobs_recursive_partial_results_witness:
  "(1::int) < 3
   \<and> serve (env0 ci_partial) (srv world0) (listing_request (env0 ci_partial) ''team'')
      = (not_found, 1)
   \<and> fetch_fails not_found
   \<and> collect_jobs_recursive (env0 ci_partial) ''team'' 3 1 world0
      = (Inr [], world0\<lparr>srv := 1, sent := [listing_request (env0 ci_partial) ''team'']\<rparr>)
   \<and> list_all (well_formed (lib (env0 ci_partial)) [])
        [folder_json ''team'', job_json ''build-z'']
   \<and> collect_loop (env0 ci_partial) [] 3 0 [folder_json ''team'', job_json ''build-z'']
        [item0 ''build-a'' ''build-a'' ''job''] world0
      = (Inr [item0 ''build-a'' ''build-a'' ''job'', item0 ''team'' ''team'' ''folder'',
           item0 ''build-z'' ''build-z'' ''job''],
         world0\<lparr>srv := 1, sent := [listing_request (env0 ci_partial) ''team'']\<rparr>)
   \<and> (0::int) < 3
   \<and> serve (env0 ci_tree) (srv world0) (listing_request (env0 ci_tree) [])
      = (listing [job_json ''build-a'', folder_json ''team''], 1)
   \<and> list_all (well_formed (lib (env0 ci_tree)) [])
        [job_json ''build-a'', folder_json ''team'']
   \<and> collect_jobs_recursive (env0 ci_tree) [] 3 0 world0
      = (Inr [item0 ''build-a'' ''build-a'' ''job'', item0 ''team'' ''team'' ''folder'',
           item0 ''deploy'' ''team/deploy'' ''job'', item0 ''sub'' ''team/sub'' ''folder'',
           item0 ''build-b'' ''team/sub/build-b'' ''job''],
         world0\<lparr>srv := 3, sent := [listing_request (env0 ci_tree) [],
           listing_request (env0 ci_tree) ''team'',
           listing_request (env0 ci_tree) ''team/sub'']\<rparr>)
   \<and> serve (env0 ci_malformed) (srv world0) (listing_request (env0 ci_malformed) [])
      = (listing [folder_json ''team'', job_json ''build-z'', PNone], 1)
   \<and> \<not> list_all (well_formed (lib (env0 ci_malformed)) [])
        [folder_json ''team'', job_json ''build-z'', PNone]
   \<and> fst (collect_jobs_recursive (env0 ci_malformed) [] 3 0 world0) = Inr []"
proof -
  let ?P = "env0 ci_partial" and ?T = "env0 ci_tree" and ?M = "env0 ci_malformed"
  let ?rt = "\<lparr>status_code = 200, headers = [],
    json_body = Some (PDict [(''jobs'', PList [job_json ''build-a'', folder_json ''team''])])\<rparr>"
  let ?rm = "\<lparr>status_code = 200, headers = [],
    json_body = Some (PDict [(''jobs'',
      PList [folder_json ''team'', job_json ''build-z'', PNone])])\<rparr>"
  have d1: "(1::int) < 3" and d0: "(0::int) < 3" by simp_all
  have s: "serve ?P (srv world0) (listing_request ?P ''team'') = (not_found, 1)"
    by (simp add: fixture_defs run_defs listing_request_def)
  have n: "fetch_fails not_found"
    by (simp add: fetch_fails_def not_found_def)
  have wfp: "list_all (well_formed (lib ?P) []) [folder_json ''team'', job_json ''build-z'']"
    by (simp add: well_formed_def fixture_defs run_defs)
  have wft: "list_all (well_formed (lib ?T) []) [job_json ''build-a'', folder_json ''team'']"
    by (simp add: well_formed_def fixture_defs run_defs)
  have wfm: "\<not> list_all (well_formed (lib ?M) [])
      [folder_json ''team'', job_json ''build-z'', PNone]"
    by (simp add: well_formed_def fixture_defs run_defs)
  have st: "serve ?T (srv world0) (listing_request ?T []) = (Reply ?rt, 1)"
    by (simp add: fixture_defs run_defs listing_request_def)
  have sm: "serve ?M (srv world0) (listing_request ?M []) = (Reply ?rm, 1)"
    by (simp add: fixture2_defs run_defs listing_request_def)
  have ok: "\<not> (400 \<le> status_code ?rt \<and> status_code ?rt < 600)"
    "\<not> (400 \<le> status_code ?rm \<and> status_code ?rm < 600)"
    by simp_all
  have lt: "listed_items ?rt = Inr [job_json ''build-a'', folder_json ''team'']"
    by (simp add: listed_items_def resp_json_def dict_get_def)
  have lm: "listed_items ?rm = Inr [folder_json ''team'', job_json ''build-z'', PNone]"
    by (simp add: listed_items_def resp_json_def dict_get_def)
  note a = collect_jobs_recursive_partial_results
    [where E = ?P and path = "''team''" and max_depth = 3 and current_depth = 1
      and w = world0 and out = not_found and s' = 1,
      THEN conjunct2, THEN conjunct1, rule_format, OF conjI [OF d1 conjI [OF s n]]]
  note b = collect_jobs_recursive_partial_results
    [where E = ?P and path = "[]" and max_depth = 3 and current_depth = 0 and w = world0
      and jobs = "[item0 ''build-a'' ''build-a'' ''job'']",
      THEN conjunct2, THEN conjunct2, THEN conjunct1, rule_format,
      OF conjI [OF wfp children_partial]]
  note c = collect_jobs_recursive_partial_results
    [where E = ?T and path = "[]" and max_depth = 3 and current_depth = 0 and w = world0
      and resp = ?rt and s' = 1,
      THEN conjunct2, THEN conjunct2, THEN conjunct2, THEN conjunct1, rule_format,
      OF conjI [OF d0 conjI [OF st conjI [OF ok(1) conjI [OF lt conjI [OF wft
        children_full]]]]]]
  note d = collect_jobs_recursive_partial_results
    [where E = ?M and path = "[]" and max_depth = 3 and current_depth = 0 and w = world0
      and resp = ?rm and s' = 1,
      THEN conjunct2, THEN conjunct2, THEN conjunct2, THEN conjunct2, THEN conjunct1,
      rule_format, OF conjI [OF d0 conjI [OF sm conjI [OF ok(2) conjI [OF lm wfm]]]]]
  from a have 1: "collect_jobs_recursive ?P ''team'' 3 1 world0
      = (Inr [], world0\<lparr>srv := 1, sent := [listing_request ?P ''team'']\<rparr>)"
    by (simp add: world0_def)
  from b have 2: "collect_loop ?P [] 3 0 [folder_json ''team'', job_json ''build-z'']
        [item0 ''build-a'' ''build-a'' ''job''] world0
      = (Inr [item0 ''build-a'' ''build-a'' ''job'', item0 ''team'' ''team'' ''folder'',
           item0 ''build-z'' ''build-z'' ''job''],
         world0\<lparr>srv := 1, sent := [listing_request ?P ''team'']\<rparr>)"
    by simp
  from st have st': "serve ?T (srv world0) (listing_request ?T [])
      = (listing [job_json ''build-a'', folder_json ''team''], 1)"
    by (simp add: listing_def ok_json_def)
  from sm have sm': "serve ?M (srv world0) (listing_request ?M [])
      = (listing [folder_json ''team'', job_json ''build-z'', PNone], 1)"
    by (simp add: listing_def ok_json_def)
  from d1 s n 1 wfp 2 d0 st' wft c sm' wfm d show ?thesis by blast
qed

text \<open>
  Against the claim as stated: the partial results are not always returned. The top
  level lists the folder \<open>team\<close>, whose fetch fails, the job \<open>build-z\<close>, and an element that
  is not an object. The loop over the first two children accumulates both items, the
  failed folder contributing nothing; the walk returns the empty list.
\<close>

theorem collect_jobs_recursive_drops_results_counterexample:
  "fetch_fails (fst (serve (env0 ci_malformed) 1
      (listing_request (env0 ci_malformed) ''team'')))
   \<and> collect_loop (env0 ci_malformed) [] 3 0 [folder_json ''team'', job_json ''build-z''] []
        (world0\<lparr>srv := 1, sent := [listing_request (env0 ci_malformed) []]\<rparr>)
      = (Inr [item0 ''team'' ''team'' ''folder'', item0 ''build-z'' ''build-z'' ''job''],
         world0\<lparr>srv := 2, sent := [listing_request (env0 ci_malformed) [],
           listing_request (env0 ci_malformed) ''team'']\<rparr>)
   \<and> collect_jobs_recursive (env0 ci_malformed) [] 3 0 world0
      = (Inr [], world0\<lparr>srv := 2, sent := [listing_request (env0 ci_malformed) [],
           listing_request (env0 ci_malformed) ''team'']\<rparr>)"
  by (simp add: fixture2_defs run_defs listing_request_def fetch_fails_def)

section \<open>Properties of the job resolver\<close>

lemma direct_lookup_request:
  "(if CHR ''/'' \<in> set job_name
    then jenkins_request_nested E GET job_name ''api/json'' [] None w
    else jenkins_request E GET (job_name @ ''/api/json'') True [] None w)
   = request_checked E (lookup_request E job_name) w"
  by (simp add: jenkins_request_nested_def jenkins_request_def add_crumb_GET
      lookup_request_def)

lemma direct_lookup_error_status:
  assumes "serve E (srv w) (lookup_request E job_name) = (Reply resp, s')"
    and "400 \<le> status_code resp \<and> status_code resp < 600"
  shows "direct_lookup E job_name w
    = (Inl (HTTPError (status_code resp)),
       w\<lparr>srv := s', sent := sent w @ [lookup_request E job_name]\<rparr>)"
  using assms
  by (simp add: direct_lookup_def direct_lookup_request request_checked_def
      requests_request_def raise_for_status_def lookup_request_def)

lemma get_job_info_reraises:
  assumes "direct_lookup E job_name w = (Inl e, w1)"
    and "\<not> (e = HTTPError 404 \<and> auto_search)"
  shows "get_job_info E job_name auto_search w = (Inl e, w1)"
  using assms by (cases e) (auto simp: get_job_info_def)

lemma similar_iff: "similar L job_name job = name_or_path_matches L job_name job"
  by (auto simp: similar_def name_or_path_matches_def wildcard_ci_def contains_ci_def)

lemma filter_similar:
  "filter (\<lambda>item. ti_type item = ''job'' \<and> similar L job_name item) all_items
   = fallback_matches L job_name all_items"
  by (simp add: fallback_matches_def similar_iff)

lemma get_job_info_404:
  assumes "direct_lookup E job_name w = (Inl (HTTPError 404), w1)"
  shows "get_job_info E job_name True w = search_fallback E job_name w1"
  using assms by (simp add: get_job_info_def)

lemma search_fallback_result:
  assumes "collect_jobs_recursive E [] 10 0 w1 = (Inr all_items, w2)"
  shows "search_fallback E job_name w1 =
    (case fallback_matches (lib E) job_name all_items of
       [] \<Rightarrow>
         (Inr \<lparr>success = False, job_info = None, search_results = None,
               message = ''Job '' @ py_quoted job_name
                 @ '' not found and no similar jobs found'',
               suggestions = Some
                 [''Try: search_jobs('' @ py_quoted (''*'' @ job_name @ ''*'') @ '')'',
                  ''Or: list_jobs(recursive=True) to see all available jobs'']\<rparr>, w2)
     | first # others \<Rightarrow>
         (Inr \<lparr>success = False, job_info = None,
               search_results = Some (fallback_matches (lib E) job_name all_items),
               message = ''Job '' @ py_quoted job_name
                 @ '' not found directly, but found ''
                 @ str_nat (length (fallback_matches (lib E) job_name all_items))
                 @ '' similar jobs'',
               suggestions = Some
                 [''Use exact path: get_job_info('' @ py_quoted (ti_full_name first) @ '')'',
                  ''Or try search_jobs() for more search options'']\<rparr>, w2))"
  using assms
  by (simp add: search_fallback_def filter_similar Let_def split: list.splits)


text \<open>
  Claim C6. An HTTP error of the direct lookup whose status is not 404, and a 404 when
  \<open>auto_search\<close> is off, leaves \<open>get_job_info\<close> as the same \<open>HTTPError\<close> with the same
  status: the result is the exception, not a response with suggestions. In terms of the
  server: when the reply to the lookup has such a status, the lookup is the only request
  sent.
\<close>

theorem get_job_info_propagates_errors:
  "(direct_lookup E job_name w = (Inl (HTTPError st), w1) \<and> (st \<noteq> 404 \<or> \<not> auto_search) \<longrightarrow>
      get_job_info E job_name auto_search w = (Inl (HTTPError st), w1))
   \<and> (serve E (srv w) (lookup_request E job_name) = (Reply resp, s')
        \<and> 400 \<le> status_code resp \<and> status_code resp < 600
        \<and> (status_code resp \<noteq> 404 \<or> \<not> auto_search) \<longrightarrow>
      get_job_info E job_name auto_search w
      = (Inl (HTTPError (status_code resp)),
         w\<lparr>srv := s', sent := sent w @ [lookup_request E job_name]\<rparr>))"
proof (intro conjI impI)
  assume a: "direct_lookup E job_name w = (Inl (HTTPError st), w1)
    \<and> (st \<noteq> 404 \<or> \<not> auto_search)"
  then have "\<not> (HTTPError st = HTTPError 404 \<and> auto_search)" by auto
  with a show "get_job_info E job_name auto_search w = (Inl (HTTPError st), w1)"
    using get_job_info_reraises by blast
next
  assume a: "serve E (srv w) (lookup_request E job_name) = (Reply resp, s')
        \<and> 400 \<le> status_code resp \<and> status_code resp < 600
        \<and> (status_code resp \<noteq> 404 \<or> \<not> auto_search)"
  then have d: "direct_lookup E job_name w
    = (Inl (HTTPError (status_code resp)),
       w\<lparr>srv := s', sent := sent w @ [lookup_request E job_name]\<rparr>)"
    by (intro direct_lookup_error_status) simp_all
  from a have "\<not> (HTTPError (status_code resp) = HTTPError 404 \<and> auto_search)" by auto
  with d show "get_job_info E job_name auto_search w
      = (Inl (HTTPError (status_code resp)),
         w\<lparr>srv := s', sent := sent w @ [lookup_request E job_name]\<rparr>)"
    by (rule get_job_info_reraises)
qed

theorem get_job_info_propagates_errors_witness:
  "serve (env0 []) (srv world0) (lookup_request (env0 []) ''ghost'')
     = (Reply \<lparr>status_code = 404, headers = [], json_body = None\<rparr>, 1)
   \<and> get_job_info (env0 []) ''ghost'' False world0
     = (Inl (HTTPError 404), world0\<lparr>srv := 1, sent := [lookup_request (env0 []) ''ghost'']\<rparr>)
   \<and> serve (env0 [((GET, ''http://ci/job/team/job/deploy/api/json''), server_error)])
        (srv world0)
        (lookup_request (env0 [((GET, ''http://ci/job/team/job/deploy/api/json''),
           server_error)]) ''team/deploy'')
     = (Reply \<lparr>status_code = 500, headers = [], json_body = None\<rparr>, 1)
   \<and> get_job_info (env0 [((GET, ''http://ci/job/team/job/deploy/api/json''), server_error)])
        ''team/deploy'' True world0
     = (Inl (HTTPError 500),
        world0\<lparr>srv := 1, sent := [lookup_request (env0 []) ''team/deploy'']\<rparr>)"
proof -
  let ?E = "env0 [((GET, ''http://ci/job/team/job/deploy/api/json''), server_error)]"
  let ?nf = "\<lparr>status_code = 404, headers = [], json_body = None\<rparr>"
  let ?se = "\<lparr>status_code = 500, headers = [], json_body = None\<rparr>"
  have a: "serve (env0 []) (srv world0) (lookup_request (env0 []) ''ghost'') = (Reply ?nf, 1)"
    by (simp add: fixture_defs lookup_request_def)
  have b: "serve ?E (srv world0) (lookup_request ?E ''team/deploy'') = (Reply ?se, 1)"
    by (simp add: fixture_defs lookup_request_def run_defs server_error_def)
  have c: "lookup_request ?E ''team/deploy'' = lookup_request (env0 []) ''team/deploy''"
    by (simp add: lookup_request_def env0_simps)
  note t1 = get_job_info_propagates_errors
    [where E = "env0 []" and job_name = "''ghost''" and w = world0 and resp = ?nf and s' = 1
      and auto_search = False]
  note t2 = get_job_info_propagates_errors
    [where E = ?E and job_name = "''team/deploy''" and w = world0 and resp = ?se and s' = 1
      and auto_search = True]
  from t1 a have 1: "get_job_info (env0 []) ''ghost'' False world0
     = (Inl (HTTPError 404), world0\<lparr>srv := 1, sent := [lookup_request (env0 []) ''ghost'']\<rparr>)"
    by (simp add: world0_def)
  from t2 b c have 2: "get_job_info ?E ''team/deploy'' True world0
     = (Inl (HTTPError 500),
        world0\<lparr>srv := 1, sent := [lookup_request (env0 []) ''team/deploy'']\<rparr>)"
    by (simp add: world0_def)
  from a b 1 2 show ?thesis by simp
qed

text \<open>
  Claim C5, as the code has it. When the direct lookup is answered with 404 and
  \<open>auto_search\<close> is on, \<open>get_job_info\<close> walks the tree from the top level with the depth
  bound 10 and keeps the job-kind items whose name or full path matches the queried name
  as a case-insensitive wildcard pattern or contains it as a case-insensitive substring.
  The result is a response with \<open>success = False\<close>. When nothing matches, it carries two
  generic suggestions and no \<open>search_results\<close> (the field is \<open>None\<close>); otherwise the
  matches are its \<open>search_results\<close> and its first suggestion names the full path of the
  first match.
\<close>

theorem get_job_info_search_fallback:
  "serve E (srv w) (lookup_request E job_name) = (Reply resp, s') \<and> status_code resp = 404
   \<and> collect_jobs_recursive E [] 10 0
        (w\<lparr>srv := s', sent := sent w @ [lookup_request E job_name]\<rparr>) = (Inr all_items, w2)
   \<and> matching = fallback_matches (lib E) job_name all_items \<longrightarrow>
   (\<exists>r. get_job_info E job_name True w = (Inr r, w2) \<and> \<not> success r \<and> job_info r = None
      \<and> (matching = [] \<longrightarrow>
           search_results r = None
           \<and> suggestions r = Some
               [''Try: search_jobs('' @ py_quoted (''*'' @ job_name @ ''*'') @ '')'',
                ''Or: list_jobs(recursive=True) to see all available jobs''])
      \<and> (\<forall>first others. matching = first # others \<longrightarrow>
           search_results r = Some matching
           \<and> suggestions r = Some
               [''Use exact path: get_job_info('' @ py_quoted (ti_full_name first) @ '')'',
                ''Or try search_jobs() for more search options'']))"
proof (intro impI)
  assume a: "serve E (srv w) (lookup_request E job_name) = (Reply resp, s')
   \<and> status_code resp = 404
   \<and> collect_jobs_recursive E [] 10 0
        (w\<lparr>srv := s', sent := sent w @ [lookup_request E job_name]\<rparr>) = (Inr all_items, w2)
   \<and> matching = fallback_matches (lib E) job_name all_items"
  let ?w1 = "w\<lparr>srv := s', sent := sent w @ [lookup_request E job_name]\<rparr>"
  from a have "direct_lookup E job_name w = (Inl (HTTPError (status_code resp)), ?w1)"
    by (intro direct_lookup_error_status) simp_all
  with a have "direct_lookup E job_name w = (Inl (HTTPError 404), ?w1)" by simp
  then have g: "get_job_info E job_name True w = search_fallback E job_name ?w1"
    by (rule get_job_info_404)
  from a have c: "collect_jobs_recursive E [] 10 0 ?w1 = (Inr all_items, w2)" by simp
  from a have m: "fallback_matches (lib E) job_name all_items = matching" by simp
  show "\<exists>r. get_job_info E job_name True w = (Inr r, w2) \<and> \<not> success r \<and> job_info r = None
      \<and> (matching = [] \<longrightarrow>
           search_results r = None
           \<and> suggestions r = Some
               [''Try: search_jobs('' @ py_quoted (''*'' @ job_name @ ''*'') @ '')'',
                ''Or: list_jobs(recursive=True) to see all available jobs''])
      \<and> (\<forall>first others. matching = first # others \<longrightarrow>
           search_results r = Some matching
           \<and> suggestions r = Some
               [''Use exact path: get_job_info('' @ py_quoted (ti_full_name first) @ '')'',
                ''Or try search_jobs() for more search options''])"
    unfolding g search_fallback_result [OF c] m
    by (cases matching) simp_all
qed

lemma walk_full:
  "collect_jobs_recursive (env0 ci_tree) [] 10 0
     (world0\<lparr>srv := 1, sent := [lookup_request (env0 ci_tree) ''BUILD'']\<rparr>)
   = (Inr [item0 ''build-a'' ''build-a'' ''job'', item0 ''team'' ''team'' ''folder'',
           item0 ''deploy'' ''team/deploy'' ''job'', item0 ''sub'' ''team/sub'' ''folder'',
           item0 ''build-b'' ''team/sub/build-b'' ''job''],
      world0\<lparr>srv := 4, sent := [lookup_request (env0 ci_tree) ''BUILD'',
         listing_request (env0 ci_tree) [], listing_request (env0 ci_tree) ''team'',
         listing_request (env0 ci_tree) ''team/sub'']\<rparr>)"
  by (simp add: fixture_defs run_defs listing_request_def)

lemma walk_partial_after_lookup:
  "collect_jobs_recursive (env0 ci_partial) [] 10 0
     (world0\<lparr>srv := 1, sent := [lookup_request (env0 ci_partial) ''nonexistent'']\<rparr>)
   = (Inr [item0 ''build-a'' ''build-a'' ''job'', item0 ''team'' ''team'' ''folder'',
           item0 ''build-z'' ''build-z'' ''job''],
      world0\<lparr>srv := 3, sent := [lookup_request (env0 ci_partial) ''nonexistent'',
         listing_request (env0 ci_partial) [], listing_request (env0 ci_partial) ''team'']\<rparr>)"
  by (simp add: fixture_defs run_defs listing_request_def)

lemmas match_defs = fallback_matches_def name_or_path_matches_def wildcard_ci_def
  contains_ci_def py_lower_def ascii_lower_def item0_def lib0_def env0_simps

lemma matches_BUILD:
  "fallback_matches (lib (env0 ci_tree)) ''BUILD''
     [item0 ''build-a'' ''build-a'' ''job'', item0 ''team'' ''team'' ''folder'',
      item0 ''deploy'' ''team/deploy'' ''job'', item0 ''sub'' ''team/sub'' ''folder'',
      item0 ''build-b'' ''team/sub/build-b'' ''job'']
   = [item0 ''build-a'' ''build-a'' ''job'', item0 ''build-b'' ''team/sub/build-b'' ''job'']"
  by (simp add: match_defs)

lemma matches_nonexistent:
  "fallback_matches (lib (env0 ci_partial)) ''nonexistent''
     [item0 ''build-a'' ''build-a'' ''job'', item0 ''team'' ''team'' ''folder'',
      item0 ''build-z'' ''build-z'' ''job'']
   = []"
  by (simp add: match_defs)


theorem get_job_info_search_fallback_witness:
  "serve (env0 ci_tree) (srv world0) (lookup_request (env0 ci_tree) ''BUILD'')
     = (Reply \<lparr>status_code = 404, headers = [], json_body = None\<rparr>, 1)
   \<and> fallback_matches (lib (env0 ci_tree)) ''BUILD''
       [item0 ''build-a'' ''build-a'' ''job'', item0 ''team'' ''team'' ''folder'',
        item0 ''deploy'' ''team/deploy'' ''job'', item0 ''sub'' ''team/sub'' ''folder'',
        item0 ''build-b'' ''team/sub/build-b'' ''job'']
     = [item0 ''build-a'' ''build-a'' ''job'', item0 ''build-b'' ''team/sub/build-b'' ''job'']
   \<and> (\<exists>r. get_job_info (env0 ci_tree) ''BUILD'' True world0
          = (Inr r, world0\<lparr>srv := 4, sent := [lookup_request (env0 ci_tree) ''BUILD'',
               listing_request (env0 ci_tree) [], listing_request (env0 ci_tree) ''team'',
               listing_request (env0 ci_tree) ''team/sub'']\<rparr>)
        \<and> \<not> success r
        \<and> search_results r = Some [item0 ''build-a'' ''build-a'' ''job'',
             item0 ''build-b'' ''team/sub/build-b'' ''job'']
        \<and> suggestions r = Some
             [''Use exact path: get_job_info('' @ py_quoted ''build-a'' @ '')'',
              ''Or try search_jobs() for more search options''])
   \<and> serve (env0 ci_partial) (srv world0) (lookup_request (env0 ci_partial) ''nonexistent'')
     = (Reply \<lparr>status_code = 404, headers = [], json_body = None\<rparr>, 1)
   \<and> (\<exists>r. get_job_info (env0 ci_partial) ''nonexistent'' True world0
          = (Inr r, world0\<lparr>srv := 3, sent := [lookup_request (env0 ci_partial) ''nonexistent'',
               listing_request (env0 ci_partial) [],
               listing_request (env0 ci_partial) ''team'']\<rparr>)
        \<and> \<not> success r \<and> search_results r = None
        \<and> suggestions r = Some
             [''Try: search_jobs('' @ py_quoted ''*nonexistent*'' @ '')'',
              ''Or: list_jobs(recursive=True) to see all available jobs''])"
proof -
  let ?nf = "\<lparr>status_code = 404, headers = [], json_body = None\<rparr>"
  have a: "serve (env0 ci_tree) (srv world0) (lookup_request (env0 ci_tree) ''BUILD'')
     = (Reply ?nf, 1)"
    by (simp add: fixture_defs lookup_request_def)
  have b: "serve (env0 ci_partial) (srv world0)
      (lookup_request (env0 ci_partial) ''nonexistent'') = (Reply ?nf, 1)"
    by (simp add: fixture_defs lookup_request_def)
  have w: "world0\<lparr>srv := 1, sent := sent world0 @ [rq]\<rparr> = world0\<lparr>srv := 1, sent := [rq]\<rparr>"
    for rq by (simp add: world0_def)
  note t1 = get_job_info_search_fallback
    [where E = "env0 ci_tree" and job_name = "''BUILD''" and w = world0 and resp = ?nf
      and s' = 1, unfolded w, rule_format, OF conjI [OF a conjI [OF _ conjI [OF walk_full
        matches_BUILD [symmetric]]]]]
  note t2 = get_job_info_search_fallback
    [where E = "env0 ci_partial" and job_name = "''nonexistent''" and w = world0
      and resp = ?nf and s' = 1, unfolded w, rule_format, OF conjI [OF b conjI [OF _ conjI
        [OF walk_partial_after_lookup matches_nonexistent [symmetric]]]]]
  from t1 have 1: "\<exists>r. get_job_info (env0 ci_tree) ''BUILD'' True world0
          = (Inr r, world0\<lparr>srv := 4, sent := [lookup_request (env0 ci_tree) ''BUILD'',
               listing_request (env0 ci_tree) [], listing_request (env0 ci_tree) ''team'',
               listing_request (env0 ci_tree) ''team/sub'']\<rparr>)
        \<and> \<not> success r
        \<and> search_results r = Some [item0 ''build-a'' ''build-a'' ''job'',
             item0 ''build-b'' ''team/sub/build-b'' ''job'']
        \<and> suggestions r = Some
             [''Use exact path: get_job_info('' @ py_quoted ''build-a'' @ '')'',
              ''Or try search_jobs() for more search options'']"
    by (auto simp: item0_def)
  from t2 have 2: "\<exists>r. get_job_info (env0 ci_partial) ''nonexistent'' True world0
          = (Inr r, world0\<lparr>srv := 3, sent := [lookup_request (env0 ci_partial) ''nonexistent'',
               listing_request (env0 ci_partial) [],
               listing_request (env0 ci_partial) ''team'']\<rparr>)
        \<and> \<not> success r \<and> search_results r = None
        \<and> suggestions r = Some
             [''Try: search_jobs('' @ py_quoted ''*nonexistent*'' @ '')'',
              ''Or: list_jobs(recursive=True) to see all available jobs'']"
    by auto
  from a b matches_BUILD 1 2 show ?thesis by blast
qed

lemma ci_deep_table:
  "ci_deep =
    [((GET, ''http://ci/api/json''), listing [folder_json ''f'']),
     ((GET, ''http://ci/job/f/api/json''), listing [folder_json ''f'']),
     ((GET, ''http://ci/job/f/job/f/api/json''), listing [folder_json ''f'']),
     ((GET, ''http://ci/job/f/job/f/job/f/api/json''), listing [folder_json ''f'']),
     ((GET, ''http://ci/job/f/job/f/job/f/job/f/api/json''), listing [folder_json ''f'']),
     ((GET, ''http://ci/job/f/job/f/job/f/job/f/job/f/api/json''), listing [folder_json ''f'']),
     ((GET, ''http://ci/job/f/job/f/job/f/job/f/job/f/job/f/api/json''),
      listing [folder_json ''f'']),
     ((GET, ''http://ci/job/f/job/f/job/f/job/f/job/f/job/f/job/f/api/json''),
      listing [folder_json ''f'']),
     ((GET, ''http://ci/job/f/job/f/job/f/job/f/job/f/job/f/job/f/job/f/api/json''),
      listing [folder_json ''f'']),
     ((GET, ''http://ci/job/f/job/f/job/f/job/f/job/f/job/f/job/f/job/f/job/f/api/json''),
      listing [folder_json ''f'']),
     ((GET, ''http://ci/job/f/job/f/job/f/job/f/job/f/job/f/job/f/job/f/job/f/job/f/api/json''),
      listing [job_json ''target''])]"
  by (simp add: ci_deep_def eval_nat_numeral)

lemma deep_walk_10:
  "fst (collect_jobs_recursive (env0 ci_deep) [] 10 0
     (world0\<lparr>srv := 1, sent := [lookup_request (env0 ci_deep) ''target'']\<rparr>))
   = Inr [item0 ''f'' ''f'' ''folder'', item0 ''f'' ''f/f'' ''folder'',
       item0 ''f'' ''f/f/f'' ''folder'', item0 ''f'' ''f/f/f/f'' ''folder'',
       item0 ''f'' ''f/f/f/f/f'' ''folder'', item0 ''f'' ''f/f/f/f/f/f'' ''folder'',
       item0 ''f'' ''f/f/f/f/f/f/f'' ''folder'', item0 ''f'' ''f/f/f/f/f/f/f/f'' ''folder'',
       item0 ''f'' ''f/f/f/f/f/f/f/f/f'' ''folder'',
       item0 ''f'' ''f/f/f/f/f/f/f/f/f/f'' ''folder'']"
  by (simp add: fixture_defs run_defs ci_deep_table)


lemma deep_walk_11:
  "fst (collect_jobs_recursive (env0 ci_deep) [] 11 0
     (world0\<lparr>srv := 1, sent := [lookup_request (env0 ci_deep) ''target'']\<rparr>))
   = Inr [item0 ''f'' ''f'' ''folder'', item0 ''f'' ''f/f'' ''folder'',
       item0 ''f'' ''f/f/f'' ''folder'', item0 ''f'' ''f/f/f/f'' ''folder'',
       item0 ''f'' ''f/f/f/f/f'' ''folder'', item0 ''f'' ''f/f/f/f/f/f'' ''folder'',
       item0 ''f'' ''f/f/f/f/f/f/f'' ''folder'', item0 ''f'' ''f/f/f/f/f/f/f/f'' ''folder'',
       item0 ''f'' ''f/f/f/f/f/f/f/f/f'' ''folder'',
       item0 ''f'' ''f/f/f/f/f/f/f/f/f/f'' ''folder'',
       item0 ''target'' ''f/f/f/f/f/f/f/f/f/f/target'' ''job'']"
  by (simp add: fixture_defs run_defs ci_deep_table)

text \<open>
  Against the claim as stated: the walk of the fallback is not of the whole tree. On a
  server whose job \<open>target\<close> lies in the tenth of ten nested folders, the lookup of
  \<open>target\<close> is answered with 404, the server lists the job in that folder, and a walk with
  the bound 11 finds it as the one match; the walk of the fallback, with the bound 10,
  finds no match, and the result says that no similar jobs were found.
\<close>

theorem get_job_info_depth_counterexample:
  "serve (env0 ci_deep) 11 (listing_request (env0 ci_deep) ''f/f/f/f/f/f/f/f/f/f'')
     = (listing [job_json ''target''], 12)
   \<and> (case fst (collect_jobs_recursive (env0 ci_deep) [] 11 0
          (world0\<lparr>srv := 1, sent := [lookup_request (env0 ci_deep) ''target'']\<rparr>)) of
        Inl e \<Rightarrow> []
      | Inr all_items \<Rightarrow> fallback_matches (lib (env0 ci_deep)) ''target'' all_items)
     = [item0 ''target'' ''f/f/f/f/f/f/f/f/f/f/target'' ''job'']
   \<and> (case fst (collect_jobs_recursive (env0 ci_deep) [] 10 0
          (world0\<lparr>srv := 1, sent := [lookup_request (env0 ci_deep) ''target'']\<rparr>)) of
        Inl e \<Rightarrow> []
      | Inr all_items \<Rightarrow> fallback_matches (lib (env0 ci_deep)) ''target'' all_items)
     = []
   \<and> fst (get_job_info (env0 ci_deep) ''target'' True world0)
     = Inr \<lparr>success = False, job_info = None, search_results = None,
            message = ''Job '' @ py_quoted ''target'' @ '' not found and no similar jobs found'',
            suggestions = Some
              [''Try: search_jobs('' @ py_quoted ''*target*'' @ '')'',
               ''Or: list_jobs(recursive=True) to see all available jobs'']\<rparr>"
proof -
  let ?nf = "\<lparr>status_code = 404, headers = [], json_body = None\<rparr>"
  let ?E = "env0 ci_deep"
  let ?w1 = "world0\<lparr>srv := 1, sent := [lookup_request ?E ''target'']\<rparr>"
  let ?folders = "[item0 ''f'' ''f'' ''folder'', item0 ''f'' ''f/f'' ''folder'',
       item0 ''f'' ''f/f/f'' ''folder'', item0 ''f'' ''f/f/f/f'' ''folder'',
       item0 ''f'' ''f/f/f/f/f'' ''folder'', item0 ''f'' ''f/f/f/f/f/f'' ''folder'',
       item0 ''f'' ''f/f/f/f/f/f/f'' ''folder'', item0 ''f'' ''f/f/f/f/f/f/f/f'' ''folder'',
       item0 ''f'' ''f/f/f/f/f/f/f/f/f'' ''folder'',
       item0 ''f'' ''f/f/f/f/f/f/f/f/f/f'' ''folder'']"
  have s: "serve ?E 11 (listing_request ?E ''f/f/f/f/f/f/f/f/f/f'')
     = (listing [job_json ''target''], 12)"
    by (simp add: env0_simps table_serve_def ci_deep_table listing_request_def run_defs)
  have m11: "fallback_matches (lib ?E) ''target''
      (?folders @ [item0 ''target'' ''f/f/f/f/f/f/f/f/f/f/target'' ''job''])
     = [item0 ''target'' ''f/f/f/f/f/f/f/f/f/f/target'' ''job'']"
    by (simp add: match_defs)
  have m10: "fallback_matches (lib ?E) ''target'' ?folders = []"
    by (simp add: match_defs)
  have b: "serve ?E (srv world0) (lookup_request ?E ''target'') = (Reply ?nf, 1)"
    by (simp add: env0_simps table_serve_def ci_deep_table lookup_request_def world0_def)
  have "direct_lookup ?E ''target'' world0
    = (Inl (HTTPError (status_code ?nf)),
       world0\<lparr>srv := 1, sent := sent world0 @ [lookup_request ?E ''target'']\<rparr>)"
    using b by (intro direct_lookup_error_status) simp_all
  then have "direct_lookup ?E ''target'' world0 = (Inl (HTTPError 404), ?w1)"
    by (simp add: world0_def)
  then have g: "get_job_info ?E ''target'' True world0 = search_fallback ?E ''target'' ?w1"
    by (rule get_job_info_404)
  obtain w2 where c: "collect_jobs_recursive ?E [] 10 0 ?w1 = (Inr ?folders, w2)"
    using deep_walk_10 by (cases "collect_jobs_recursive ?E [] 10 0 ?w1") simp
  have r: "fst (get_job_info ?E ''target'' True world0)
     = Inr \<lparr>success = False, job_info = None, search_results = None,
            message = ''Job '' @ py_quoted ''target'' @ '' not found and no similar jobs found'',
            suggestions = Some
              [''Try: search_jobs('' @ py_quoted ''*target*'' @ '')'',
               ''Or: list_jobs(recursive=True) to see all available jobs'']\<rparr>"
    unfolding g search_fallback_result [OF c] m10 by simp
  from s m11 m10 r deep_walk_10 deep_walk_11 show ?thesis by simp
qed

section \<open>Properties of search and trigger\<close>

lemma search_jobs_result:
  assumes "collect_jobs_recursive E [] max_depth 0 w = (Inr all_items, w1)"
  shows "search_jobs E pattern ''job'' max_depth w
    = (Inr (job_matches (lib E) pattern all_items), w1)"
  using assms by (simp add: search_jobs_def job_matches_def wildcard_ci_def)

lemma fetched_only_GET:
  assumes "fetched E base lo hi w w'"
  shows "list_all (\<lambda>rq. req_method rq = GET) (drop (length (sent w)) (sent w'))"
  using assms by (auto simp: fetched_def list_all_iff listing_request_def)

lemma search_and_trigger_cases:
  assumes "search_jobs E pattern ''job'' max_depth w = (Inr matches, w1)"
  shows "search_and_trigger E pattern params max_depth w =
    (case matches of
       [] \<Rightarrow> (Inr (No_jobs_found pattern (broaden pattern)), w1)
     | [m] \<Rightarrow>
         (case trigger_job E (ti_full_name m) params w1 of
            (Inl e, w2) \<Rightarrow> (Inl e, w2)
          | (Inr trigger_result, w2) \<Rightarrow> (Inr (Success m trigger_result), w2))
     | m # m' # ms \<Rightarrow>
         (Inr (Multiple_jobs_match pattern matches
            ''Use a more specific pattern or call trigger_job with the exact path''), w1))"
  using assms by (simp add: search_and_trigger_def broaden_def split: list.splits)

text \<open>
  Claim C1. Let \<open>matches\<close> be the job-kind items of the walk that match the pattern;
  they are what \<open>search_jobs\<close> returns, and the search sends nothing but GET requests for
  listings. With no match, \<open>search_and_trigger\<close> returns the "no jobs found" result with
  the pattern and the suggestion of broader patterns, in the state the search left. With
  exactly one match, it is \<open>trigger_job\<close> on the full name of that match, run in the state
  the search left, with its response wrapped or its exception passed on. With two or more
  matches, it returns the "multiple jobs match" result with all of them, in the state the
  search left: \<open>trigger_job\<close> does not run and no POST has been sent.
\<close>

theorem search_and_trigger_exactly_one:
  "collect_jobs_recursive E [] max_depth 0 w = (Inr all_items, w1)
   \<and> matches = job_matches (lib E) pattern all_items \<longrightarrow>
   search_jobs E pattern ''job'' max_depth w = (Inr matches, w1)
   \<and> fetched E [] 0 max_depth w w1
   \<and> list_all (\<lambda>rq. req_method rq = GET) (drop (length (sent w)) (sent w1))
   \<and> (matches = [] \<longrightarrow>
        search_and_trigger E pattern params max_depth w
        = (Inr (No_jobs_found pattern (broaden pattern)), w1))
   \<and> (\<forall>m. matches = [m] \<longrightarrow>
        search_and_trigger E pattern params max_depth w
        = (case trigger_job E (ti_full_name m) params w1 of
             (Inl e, w2) \<Rightarrow> (Inl e, w2)
           | (Inr trigger_result, w2) \<Rightarrow> (Inr (Success m trigger_result), w2)))
   \<and> (2 \<le> length matches \<longrightarrow>
        search_and_trigger E pattern params max_depth w
        = (Inr (Multiple_jobs_match pattern matches
             ''Use a more specific pattern or call trigger_job with the exact path''), w1))"
proof (intro impI)
  assume a: "collect_jobs_recursive E [] max_depth 0 w = (Inr all_items, w1)
   \<and> matches = job_matches (lib E) pattern all_items"
  then have s: "search_jobs E pattern ''job'' max_depth w = (Inr matches, w1)"
    by (simp add: search_jobs_result)
  from a collect_fetched(1) [of E "[]" max_depth 0 w]
  have f: "fetched E [] 0 max_depth w w1" by simp
  note c = search_and_trigger_cases [OF s, of params]
  have z: "matches = [] \<longrightarrow>
        search_and_trigger E pattern params max_depth w
        = (Inr (No_jobs_found pattern (broaden pattern)), w1)"
    using c by simp
  have o: "\<forall>m. matches = [m] \<longrightarrow>
        search_and_trigger E pattern params max_depth w
        = (case trigger_job E (ti_full_name m) params w1 of
             (Inl e, w2) \<Rightarrow> (Inl e, w2)
           | (Inr trigger_result, w2) \<Rightarrow> (Inr (Success m trigger_result), w2))"
    using c by simp
  have m: "2 \<le> length matches \<longrightarrow>
        search_and_trigger E pattern params max_depth w
        = (Inr (Multiple_jobs_match pattern matches
             ''Use a more specific pattern or call trigger_job with the exact path''), w1)"
    using c by (auto split: list.splits)
  from s f fetched_only_GET [OF f] z o m
  show "search_jobs E pattern ''job'' max_depth w = (Inr matches, w1)
   \<and> fetched E [] 0 max_depth w w1
   \<and> list_all (\<lambda>rq. req_method rq = GET) (drop (length (sent w)) (sent w1))
   \<and> (matches = [] \<longrightarrow>
        search_and_trigger E pattern params max_depth w
        = (Inr (No_jobs_found pattern (broaden pattern)), w1))
   \<and> (\<forall>m. matches = [m] \<longrightarrow>
        search_and_trigger E pattern params max_depth w
        = (case trigger_job E (ti_full_name m) params w1 of
             (Inl e, w2) \<Rightarrow> (Inl e, w2)
           | (Inr trigger_result, w2) \<Rightarrow> (Inr (Success m trigger_result), w2)))
   \<and> (2 \<le> length matches \<longrightarrow>
        search_and_trigger E pattern params max_depth w
        = (Inr (Multiple_jobs_match pattern matches
             ''Use a more specific pattern or call trigger_job with the exact path''), w1))"
    by blast
qed

lemmas trigger_defs = trigger_job_def trigger_attempt_def jenkins_params_of_def
  triggered_def form_headers_def get_jenkins_crumb_def crumb_fetch_def datetime_now_def
  header_value_ok_def header_get_def is_space_def lib0_def py_lower_def ascii_lower_def
  ci_trigger_def queued_def urlencode_def quote_plus_def process_jenkins_parameters_def

lemma walk_trigger:
  "collect_jobs_recursive (env0 ci_trigger) [] 2 0 world0
   = (Inr [item0 ''build-a'' ''build-a'' ''job'', item0 ''team'' ''team'' ''folder'',
           item0 ''deploy'' ''team/deploy'' ''job''],
      world0\<lparr>srv := 2, sent := [listing_request (env0 ci_trigger) [],
         listing_request (env0 ci_trigger) ''team'']\<rparr>)"
  by (simp add: fixture_defs run_defs listing_request_def ci_trigger_def)

lemma trigger_deploy:
  "trigger_job (env0 ci_trigger) ''team/deploy'' PNone
     (world0\<lparr>srv := 2, sent := [listing_request (env0 ci_trigger) [],
         listing_request (env0 ci_trigger) ''team'']\<rparr>)
   = (Inr \<lparr>tr_job_name = ''team/deploy'', tr_status = ''Triggered'',
           tr_queue_url = Some ''http://ci/queue/item/7/'', tr_processed_params = None\<rparr>,
      \<lparr>srv = 4,
       sent = [listing_request (env0 ci_trigger) [], listing_request (env0 ci_trigger) ''team'',
         crumb_request (env0 ci_trigger),
         \<lparr>req_method = POST, req_url = ''http://ci/job/team/job/deploy/build'',
          req_headers = [(''Jenkins-Crumb'', PStr ''xyz'')], req_data = None\<rparr>],
       crumb_token = PStr ''xyz'', crumb_expires = Some thirty_minutes, ticks = 1\<rparr>)"
  by (simp add: fixture_defs run_defs listing_request_def trigger_defs crumb_request_def)

lemma walk_partial_top:
  "collect_jobs_recursive (env0 ci_partial) [] 1 0 world0
   = (Inr [item0 ''build-a'' ''build-a'' ''job'', item0 ''team'' ''team'' ''folder'',
           item0 ''build-z'' ''build-z'' ''job''],
      world0\<lparr>srv := 1, sent := [listing_request (env0 ci_partial) []]\<rparr>)"
  by (simp add: fixture_defs run_defs listing_request_def)

lemmas job_match_defs = job_matches_def wildcard_ci_def py_lower_def ascii_lower_def
  item0_def lib0_def env0_simps

theorem search_and_trigger_exactly_one_witness:
  "job_matches (lib (env0 ci_partial)) ''nothing''
     [item0 ''build-a'' ''build-a'' ''job'', item0 ''team'' ''team'' ''folder'',
      item0 ''build-z'' ''build-z'' ''job''] = []
   \<and> search_and_trigger (env0 ci_partial) ''nothing'' PNone 1 world0
     = (Inr (No_jobs_found ''nothing'' (broaden ''nothing'')),
        world0\<lparr>srv := 1, sent := [listing_request (env0 ci_partial) []]\<rparr>)
   \<and> job_matches (lib (env0 ci_partial)) ''build*''
     [item0 ''build-a'' ''build-a'' ''job'', item0 ''team'' ''team'' ''folder'',
      item0 ''build-z'' ''build-z'' ''job'']
     = [item0 ''build-a'' ''build-a'' ''job'', item0 ''build-z'' ''build-z'' ''job'']
   \<and> search_and_trigger (env0 ci_partial) ''build*'' PNone 1 world0
     = (Inr (Multiple_jobs_match ''build*''
          [item0 ''build-a'' ''build-a'' ''job'', item0 ''build-z'' ''build-z'' ''job'']
          ''Use a more specific pattern or call trigger_job with the exact path''),
        world0\<lparr>srv := 1, sent := [listing_request (env0 ci_partial) []]\<rparr>)
   \<and> job_matches (lib (env0 ci_trigger)) ''DEPLOY''
     [item0 ''build-a'' ''build-a'' ''job'', item0 ''team'' ''team'' ''folder'',
      item0 ''deploy'' ''team/deploy'' ''job'']
     = [item0 ''deploy'' ''team/deploy'' ''job'']
   \<and> search_and_trigger (env0 ci_trigger) ''DEPLOY'' PNone 2 world0
     = (Inr (Success (item0 ''deploy'' ''team/deploy'' ''job'')
          \<lparr>tr_job_name = ''team/deploy'', tr_status = ''Triggered'',
           tr_queue_url = Some ''http://ci/queue/item/7/'', tr_processed_params = None\<rparr>),
        \<lparr>srv = 4,
         sent = [listing_request (env0 ci_trigger) [],
           listing_request (env0 ci_trigger) ''team'', crumb_request (env0 ci_trigger),
           \<lparr>req_method = POST, req_url = ''http://ci/job/team/job/deploy/build'',
            req_headers = [(''Jenkins-Crumb'', PStr ''xyz'')], req_data = None\<rparr>],
         crumb_token = PStr ''xyz'', crumb_expires = Some thirty_minutes, ticks = 1\<rparr>)"
proof -
  let ?ip = "[item0 ''build-a'' ''build-a'' ''job'', item0 ''team'' ''team'' ''folder'',
      item0 ''build-z'' ''build-z'' ''job'']"
  let ?it = "[item0 ''build-a'' ''build-a'' ''job'', item0 ''team'' ''team'' ''folder'',
      item0 ''deploy'' ''team/deploy'' ''job'']"
  have m0: "job_matches (lib (env0 ci_partial)) ''nothing'' ?ip = []"
    by (simp add: job_match_defs)
  have m2: "job_matches (lib (env0 ci_partial)) ''build*'' ?ip
      = [item0 ''build-a'' ''build-a'' ''job'', item0 ''build-z'' ''build-z'' ''job'']"
    by (simp add: job_match_defs)
  have m1: "job_matches (lib (env0 ci_trigger)) ''DEPLOY'' ?it
      = [item0 ''deploy'' ''team/deploy'' ''job'']"
    by (simp add: job_match_defs)
  have fn: "ti_full_name (item0 ''deploy'' ''team/deploy'' ''job'') = ''team/deploy''"
    by (simp add: item0_def)
  note t0 = search_and_trigger_exactly_one
    [where E = "env0 ci_partial" and pattern = "''nothing''" and max_depth = 1
      and w = world0 and params = PNone, rule_format,
      OF conjI [OF walk_partial_top m0 [symmetric]]]
  note t2 = search_and_trigger_exactly_one
    [where E = "env0 ci_partial" and pattern = "''build*''" and max_depth = 1
      and w = world0 and params = PNone, rule_format,
      OF conjI [OF walk_partial_top m2 [symmetric]]]
  note t1 = search_and_trigger_exactly_one
    [where E = "env0 ci_trigger" and pattern = "''DEPLOY''" and max_depth = 2
      and w = world0 and params = PNone, rule_format,
      OF conjI [OF walk_trigger m1 [symmetric]]]
  from t0 have 0: "search_and_trigger (env0 ci_partial) ''nothing'' PNone 1 world0
     = (Inr (No_jobs_found ''nothing'' (broaden ''nothing'')),
        world0\<lparr>srv := 1, sent := [listing_request (env0 ci_partial) []]\<rparr>)"
    by blast
  from t2 have 2: "search_and_trigger (env0 ci_partial) ''build*'' PNone 1 world0
     = (Inr (Multiple_jobs_match ''build*''
          [item0 ''build-a'' ''build-a'' ''job'', item0 ''build-z'' ''build-z'' ''job'']
          ''Use a more specific pattern or call trigger_job with the exact path''),
        world0\<lparr>srv := 1, sent := [listing_request (env0 ci_partial) []]\<rparr>)"
    by simp
  from t1 have "search_and_trigger (env0 ci_trigger) ''DEPLOY'' PNone 2 world0
     = (case trigger_job (env0 ci_trigger)
            (ti_full_name (item0 ''deploy'' ''team/deploy'' ''job'')) PNone
            (world0\<lparr>srv := 2, sent := [listing_request (env0 ci_trigger) [],
               listing_request (env0 ci_trigger) ''team'']\<rparr>) of
          (Inl e, w2) \<Rightarrow> (Inl e, w2)
        | (Inr trigger_result, w2) \<Rightarrow>
            (Inr (Success (item0 ''deploy'' ''team/deploy'' ''job'') trigger_result), w2))"
    by blast
  then have 1: "search_and_trigger (env0 ci_trigger) ''DEPLOY'' PNone 2 world0
     = (Inr (Success (item0 ''deploy'' ''team/deploy'' ''job'')
          \<lparr>tr_job_name = ''team/deploy'', tr_status = ''Triggered'',
           tr_queue_url = Some ''http://ci/queue/item/7/'', tr_processed_params = None\<rparr>),
        \<lparr>srv = 4,
         sent = [listing_request (env0 ci_trigger) [],
           listing_request (env0 ci_trigger) ''team'', crumb_request (env0 ci_trigger),
           \<lparr>req_method = POST, req_url = ''http://ci/job/team/job/deploy/build'',
            req_headers = [(''Jenkins-Crumb'', PStr ''xyz'')], req_data = None\<rparr>],
         crumb_token = PStr ''xyz'', crumb_expires = Some thirty_minutes, ticks = 1\<rparr>)"
    unfolding fn trigger_deploy by simp
  from m0 0 m2 2 m1 1 show ?thesis by blast
qed


section \<open>Properties of triggering\<close>

lemma jenkins_params_of_dict:
  "jenkins_params_of (PDict kvs) =
     (if kvs = [] then Inr PNone
      else case map_of kvs ''args'' of
             None \<Rightarrow> Inr (PDict kvs)
           | Some (PDict args) \<Rightarrow> Inr (dict_get args ''params'' (PDict kvs))
           | Some _ \<Rightarrow> Inl AttributeError)"
  by (simp add: jenkins_params_of_def dict_get_def split: option.splits pyval.splits)

lemma jenkins_params_of_None: "jenkins_params_of PNone = Inr PNone"
  by (simp add: jenkins_params_of_def)

lemma trigger_job_other_parameter:
  "trigger_job (env0 ci_trigger) ''team/deploy'' (PDict [(''flags'', PStr ''--verbose'')]) world0
   = (Inr \<lparr>tr_job_name = ''team/deploy'', tr_status = ''Triggered'',
           tr_queue_url = Some ''http://ci/queue/item/7/'',
           tr_processed_params = Some [(''flags'', ''--verbose'')]\<rparr>,
      \<lparr>srv = 2,
       sent = [crumb_request (env0 ci_trigger),
         \<lparr>req_method = POST, req_url = ''http://ci/job/team/job/deploy/buildWithParameters'',
          req_headers = [(''Content-Type'', PStr ''application/x-www-form-urlencoded''),
            (''Jenkins-Crumb'', PStr ''xyz'')],
          req_data = Some ''flags=--verbose''\<rparr>],
       crumb_token = PStr ''xyz'', crumb_expires = Some thirty_minutes, ticks = 1\<rparr>)"
  by (simp add: fixture_defs run_defs trigger_defs crumb_request_def)


text \<open>
  Claim C10. The claim says that \<open>params\<close> itself is used whenever it does not hold a
  mapping under \<open>args\<close> that holds \<open>params\<close>. For a job parameter that is named \<open>args\<close> and
  whose value is not a mapping, line 314 calls \<open>.get\<close> on that value: \<open>trigger_job\<close> raises
  \<open>AttributeError\<close> and sends nothing, where the same value under any other name triggers
  the job through \<open>buildWithParameters\<close>.
\<close>

theorem trigger_job_args_not_a_mapping:
  "trigger_job (env0 ci_trigger) ''team/deploy'' (PDict [(''args'', PStr ''--verbose'')]) world0
   = (Inl AttributeError, world0)
   \<and> trigger_job (env0 ci_trigger) ''team/deploy''
       (PDict [(''args'', PList [PStr ''a'', PStr ''b''])]) world0
   = (Inl AttributeError, world0)"
  by (simp add: trigger_defs dict_get_def)


end
